theory Spec2Isabelle
  imports Main "HOL-Library.Word"
begin

unbundle bit_operations_syntax

section \<open>Machine model\<close>

text \<open>
  The pool code of \<^verbatim>\<open>tls/mpool.c\<close> runs in the Linux kernel on x86-64: pointers,
  \<^verbatim>\<open>unsigned long\<close> and \<^verbatim>\<open>size_t\<close> are 64-bit words whose arithmetic wraps, \<^verbatim>\<open>int\<close> is a
  32-bit word. Memory is a map from byte addresses to bytes; a \<^verbatim>\<open>size_t\<close> field is eight
  bytes, least significant first.
\<close>

type_synonym addr = "64 word"
type_synonym memory = "addr \<Rightarrow> 8 word"

text \<open>A \<^verbatim>\<open>BUG_ON\<close> that fires and a dereference of \<^verbatim>\<open>NULL\<close> both stop the kernel thread.\<close>

datatype fault = BUG | NULL_DEREF

definition cat8 :: "8 word \<Rightarrow> 8 word \<Rightarrow> 8 word \<Rightarrow> 8 word \<Rightarrow> 8 word \<Rightarrow> 8 word \<Rightarrow> 8 word \<Rightarrow> 8 word \<Rightarrow> 64 word" where
  "cat8 b0 b1 b2 b3 b4 b5 b6 b7 =
     ucast b0 OR push_bit 8 (ucast b1) OR push_bit 16 (ucast b2) OR push_bit 24 (ucast b3)
       OR push_bit 32 (ucast b4) OR push_bit 40 (ucast b5) OR push_bit 48 (ucast b6)
       OR push_bit 56 (ucast b7)"

definition load64 :: "memory \<Rightarrow> addr \<Rightarrow> 64 word" where
  "load64 m a =
     cat8 (m a) (m (a + 1)) (m (a + 2)) (m (a + 3)) (m (a + 4)) (m (a + 5)) (m (a + 6)) (m (a + 7))"

definition store64 :: "memory \<Rightarrow> addr \<Rightarrow> 64 word \<Rightarrow> memory" where
  "store64 m a v =
     m(a := ucast v, a + 1 := ucast (drop_bit 8 v), a + 2 := ucast (drop_bit 16 v),
       a + 3 := ucast (drop_bit 24 v), a + 4 := ucast (drop_bit 32 v),
       a + 5 := ucast (drop_bit 40 v), a + 6 := ucast (drop_bit 48 v),
       a + 7 := ucast (drop_bit 56 v))"

text \<open>
  \<^verbatim>\<open>memset(dst, c, n)\<close> writes the \<^verbatim>\<open>n\<close> bytes from \<^verbatim>\<open>dst\<close> on; \<^verbatim>\<open>bzero_fast(dst, n)\<close> is
  \<^verbatim>\<open>memset(dst, 0, n)\<close>. Byte \<^verbatim>\<open>b\<close> is one of them when its unsigned distance from \<^verbatim>\<open>dst\<close> is
  below \<^verbatim>\<open>n\<close>.
\<close>

definition memset :: "memory \<Rightarrow> addr \<Rightarrow> 8 word \<Rightarrow> 64 word \<Rightarrow> memory" where
  "memset m dst c n = (\<lambda>b. if b - dst < n then c else m b)"

definition bzero_fast :: "memory \<Rightarrow> addr \<Rightarrow> 64 word \<Rightarrow> memory" where
  "bzero_fast m dst n = memset m dst 0 n"

text \<open>
  Modelled from the spec: \<^verbatim>\<open>PAGE_SIZE\<close> and \<^verbatim>\<open>PAGE_MASK\<close> are kernel macros that the
  sources use and do not define. The spec fixes the pool capacity at one platform page of
  4096 bytes; \<^verbatim>\<open>PAGE_MASK\<close> is the kernel's mask that clears the in-page offset bits of an
  address, which is how \<^verbatim>\<open>ttls_mpi_free_mpool\<close> uses it to find the page it gives back.
  The errno values are the kernel's.
\<close>

definition PAGE_SIZE :: addr where
  "PAGE_SIZE = 4096"

definition PAGE_MASK :: addr where
  "PAGE_MASK = NOT (PAGE_SIZE - 1)"

definition ENOMEM :: "32 word" where
  "ENOMEM = 12"

definition EINVAL :: "32 word" where
  "EINVAL = 22"

definition MCTX_ORDER :: nat where
  "MCTX_ORDER = 0"

section \<open>Global state\<close>

text \<open>
  \<^verbatim>\<open>mpi_profiles\<close> is the static array of profile descriptors (the \<^verbatim>\<open>profile\<close> pointer of
  each slot), \<^verbatim>\<open>g_tmp_mpool\<close> the per-CPU pointer to the pool for temporary MPIs (the
  source also spells it \<^verbatim>\<open>g_tmp_pool\<close>), \<^verbatim>\<open>has_empty_profile\<close> the function-static flag
  of \<^verbatim>\<open>ttls_mpi_profile_set\<close>. The page allocator is the environment: \<^verbatim>\<open>buddy\<close> lists what
  the coming calls of \<^verbatim>\<open>__get_free_pages\<close> return (0 is \<^verbatim>\<open>NULL\<close>, and so is an exhausted
  list), \<^verbatim>\<open>freed\<close> records the pages given to \<^verbatim>\<open>free_pages\<close>, in order.
\<close>

record kstate =
  mem :: memory
  mpi_profiles :: "nat \<Rightarrow> addr"
  g_tmp_mpool :: "nat \<Rightarrow> addr"
  has_empty_profile :: bool
  buddy :: "addr list"
  freed :: "addr list"

text \<open>Static storage starts zeroed; the flag is initialised to \<^verbatim>\<open>true\<close>.\<close>

definition boot_state :: "memory \<Rightarrow> addr list \<Rightarrow> kstate" where
  "boot_state m pages =
     \<lparr>mem = m, mpi_profiles = (\<lambda>_. 0), g_tmp_mpool = (\<lambda>_. 0), has_empty_profile = True,
      buddy = pages, freed = []\<rparr>"

text \<open>
  Every call of \<^verbatim>\<open>__get_free_pages\<close> in the file passes \<^verbatim>\<open>__GFP_ZERO\<close>: a page that is
  handed out is zero-filled. \<^verbatim>\<open>free_pages\<close> ignores address 0.
\<close>

definition get_free_pages :: "nat \<Rightarrow> kstate \<Rightarrow> addr \<times> kstate" where
  "get_free_pages order s =
     (case buddy s of
        [] \<Rightarrow> (0, s)
      | p # ps \<Rightarrow>
          if p = 0 then (0, s\<lparr>buddy := ps\<rparr>)
          else (p, s\<lparr>mem := bzero_fast (mem s) p (push_bit order PAGE_SIZE), buddy := ps\<rparr>))"

definition free_pages :: "addr \<Rightarrow> nat \<Rightarrow> kstate \<Rightarrow> kstate" where
  "free_pages a order s = (if a = 0 then s else s\<lparr>freed := freed s @ [a]\<rparr>)"

section \<open>The pool\<close>

text \<open>
  \<^verbatim>\<open>TlsMpiPool\<close> is two \<^verbatim>\<open>size_t\<close> fields at the start of the pool's page: \<^verbatim>\<open>curr\<close> at
  offset 0 and \<^verbatim>\<open>size\<close> at offset 8.
\<close>

definition sizeof_TlsMpiPool :: addr where
  "sizeof_TlsMpiPool = 16"

definition pool_curr :: "memory \<Rightarrow> addr \<Rightarrow> 64 word" where
  "pool_curr m mp = load64 m mp"

definition pool_size :: "memory \<Rightarrow> addr \<Rightarrow> 64 word" where
  "pool_size m mp = load64 m (mp + 8)"

definition set_curr :: "memory \<Rightarrow> addr \<Rightarrow> 64 word \<Rightarrow> memory" where
  "set_curr m mp v = store64 m mp v"

definition set_size :: "memory \<Rightarrow> addr \<Rightarrow> 64 word \<Rightarrow> memory" where
  "set_size m mp v = store64 m (mp + 8) v"

definition MPI_POOL_DATA :: "addr \<Rightarrow> addr" where
  "MPI_POOL_DATA mp = mp + sizeof_TlsMpiPool"

definition MPI_POOL_FREE_PTR :: "memory \<Rightarrow> addr \<Rightarrow> addr" where
  "MPI_POOL_FREE_PTR m mp = mp + sizeof_TlsMpiPool + pool_curr m mp"

definition ttls_mpi_pool_init :: "addr \<Rightarrow> kstate \<Rightarrow> fault + kstate" where
  "ttls_mpi_pool_init mp s =
     (if mp = 0 then Inl NULL_DEREF
      else
        let m1 = set_curr (mem s) mp (MPI_POOL_DATA mp);
            m2 = set_size m1 mp 0
        in Inr (s\<lparr>mem := m2\<rparr>))"

text \<open>
  \<^verbatim>\<open>__mpi_pool(addr)\<close>: \<^verbatim>\<open>sp\<close> is the address of the function's own local variable, that
  is, a position on the current stack; \<^verbatim>\<open>cpu\<close> is the CPU the caller runs on.
\<close>

definition mpi_pool :: "addr \<Rightarrow> nat \<Rightarrow> kstate \<Rightarrow> addr \<Rightarrow> addr" where
  "mpi_pool sp cpu s a =
     (if sp < a \<and> a < sp + 2 * PAGE_SIZE then g_tmp_mpool s cpu
      else a AND NOT PAGE_MASK)"

text \<open>
  \<^verbatim>\<open>ttls_mpi_profile_alloc_mpi(x, n)\<close> finds its pool with \<^verbatim>\<open>__mpi_profile(x)\<close>, which the
  sources do not define: it is the parameter \<^verbatim>\<open>mpi_profile\<close>. The function has no declared
  return type, so it returns \<^verbatim>\<open>int\<close>: \<^verbatim>\<open>-ENOMEM\<close>, or the distance from the descriptor
  \<^verbatim>\<open>x\<close> to the allocated bytes, cut to 32 bits. \<^verbatim>\<open>WARN_ON_ONCE\<close> only logs.
\<close>

definition ttls_mpi_profile_alloc_mpi ::
  "(kstate \<Rightarrow> addr \<Rightarrow> addr) \<Rightarrow> addr \<Rightarrow> 64 word \<Rightarrow> kstate \<Rightarrow> fault + (32 word \<times> kstate)" where
  "ttls_mpi_profile_alloc_mpi mpi_profile x n s =
     (let mp = mpi_profile s x in
      if mp = 0 then Inl NULL_DEREF
      else if sizeof_TlsMpiPool + pool_size (mem s) mp + n > PAGE_SIZE then Inr (- ENOMEM, s)
      else
        let ptr = MPI_POOL_FREE_PTR (mem s) mp in
        if x \<ge> ptr then Inl BUG
        else
          let m1 = set_curr (mem s) mp (pool_curr (mem s) mp + n);
              m2 = set_size m1 mp (pool_size m1 mp + n)
          in Inr (ucast (ptr - x), s\<lparr>mem := m2\<rparr>))"

text \<open>
  The address a returned distance denotes: the caller adds the (signed) result to the
  address of the descriptor it passed.
\<close>

definition mpi_data :: "addr \<Rightarrow> 32 word \<Rightarrow> addr" where
  "mpi_data x off = x + scast off"

text \<open>
  \<^verbatim>\<open>ttls_mpi_cleanup_ctx\<close> works on the pool of the current CPU. Its first \<^verbatim>\<open>BUG_ON\<close> reads
  \<^verbatim>\<open>mp->mem_alloc\<close>, a field that \<^verbatim>\<open>TlsMpiPool\<close> does not declare: the value read is the
  parameter \<^verbatim>\<open>mem_alloc\<close>.
\<close>

definition ttls_mpi_cleanup_ctx :: "addr \<Rightarrow> nat \<Rightarrow> kstate \<Rightarrow> fault + kstate" where
  "ttls_mpi_cleanup_ctx mem_alloc cpu s =
     (let mp = g_tmp_mpool s cpu;
          data = MPI_POOL_DATA mp
      in
      if mp = 0 then Inl NULL_DEREF
      else if mem_alloc < data then Inl BUG
      else if pool_curr (mem s) mp > pool_size (mem s) mp then Inl BUG
      else
        let m1 = bzero_fast (mem s) data (pool_curr (mem s) mp);
            m2 = set_curr m1 mp 0
        in Inr (s\<lparr>mem := m2\<rparr>))"

definition ttls_mpi_free_mpool :: "addr \<Rightarrow> kstate \<Rightarrow> kstate" where
  "ttls_mpi_free_mpool ctx s =
     (let a = ctx AND PAGE_MASK in
      free_pages a MCTX_ORDER (s\<lparr>mem := bzero_fast (mem s) a (push_bit MCTX_ORDER PAGE_SIZE)\<rparr>))"

definition ttls_mpi_pool_alloc :: "64 word \<Rightarrow> kstate \<Rightarrow> fault + (addr \<times> kstate)" where
  "ttls_mpi_pool_alloc n s =
     (if n > push_bit MCTX_ORDER PAGE_SIZE then Inl BUG
      else
        case get_free_pages MCTX_ORDER s of
          (mp, s1) \<Rightarrow>
            if mp = 0 then Inr (0, s1)
            else
              (case ttls_mpi_pool_init mp s1 of
                 Inl e \<Rightarrow> Inl e
               | Inr s2 \<Rightarrow>
                   Inr (MPI_POOL_DATA mp,
                        s2\<lparr>mem := set_curr (mem s2) mp (pool_curr (mem s2) mp + n)\<rparr>)))"

section \<open>The profile registry\<close>

text \<open>
  The key types are those of the public-key layer (the enumeration is declared outside
  the sources at hand); the profile identifiers are the values of \<^verbatim>\<open>ttls_mpi_profile_t\<close>.
\<close>

datatype ttls_pk_type_t =
  TTLS_PK_NONE | TTLS_PK_RSA | TTLS_PK_ECKEY | TTLS_PK_ECKEY_DH | TTLS_PK_ECDSA
  | TTLS_PK_RSA_ALT | TTLS_PK_RSASSA_PSS

record TlsPkCtx =
  pk_info_type :: ttls_pk_type_t
  pk_ctx :: nat

record ttls_x509_crt =
  pk :: TlsPkCtx

definition TTLS_MPI_PROFILE_ECDH :: nat where
  "TTLS_MPI_PROFILE_ECDH = 0"


definition TTLS_MPI_PROFILE_ECDHE_SECP256 :: nat where
  "TTLS_MPI_PROFILE_ECDHE_SECP256 = 2"

definition TTLS_MPI_PROFILE_ECDHE_SECP384 :: nat where
  "TTLS_MPI_PROFILE_ECDHE_SECP384 = 3"

definition TTLS_MPI_PROFILE_ECDHE_SECP521 :: nat where
  "TTLS_MPI_PROFILE_ECDHE_SECP521 = 4"

definition TTLS_MPI_PROFILE_ECDHE_BP256 :: nat where
  "TTLS_MPI_PROFILE_ECDHE_BP256 = 5"

definition TTLS_MPI_PROFILE_ECDHE_BP384 :: nat where
  "TTLS_MPI_PROFILE_ECDHE_BP384 = 6"

definition TTLS_MPI_PROFILE_ECDHE_BP521 :: nat where
  "TTLS_MPI_PROFILE_ECDHE_BP521 = 7"

definition TTLS_MPI_PROFILES_N :: nat where
  "TTLS_MPI_PROFILES_N = 8"

text \<open>The body compares \<^verbatim>\<open>id\<close>, which can only be the parameter \<^verbatim>\<open>pid\<close>.\<close>

definition ttls_mpi_profile_for_cert :: "nat \<Rightarrow> TlsPkCtx \<Rightarrow> bool" where
  "ttls_mpi_profile_for_cert pid pkey =
     (case pk_info_type pkey of
        TTLS_PK_ECKEY \<Rightarrow> if pid = TTLS_MPI_PROFILE_ECDH then True else False
      | TTLS_PK_ECKEY_DH \<Rightarrow> False
      | TTLS_PK_ECDSA \<Rightarrow> False
      | TTLS_PK_RSA \<Rightarrow> False
      | _ \<Rightarrow> False)"

text \<open>
  The elliptic-curve and Diffie-Hellman routines are outside the pool code; each is a
  parameter that transforms memory and, where the source tests it, returns a status.
  \<^verbatim>\<open>grp_nbits\<close> reads \<^verbatim>\<open>ecdh_ctx->grp.nbits\<close>.
\<close>

record pk_ops =
  ttls_ecdh_get_params :: "memory \<Rightarrow> addr \<Rightarrow> TlsPkCtx \<Rightarrow> int \<times> memory"
  ttls_ecp_point_init :: "memory \<Rightarrow> addr \<Rightarrow> memory"
  grp_nbits :: "memory \<Rightarrow> addr \<Rightarrow> 64 word"
  TTLS_ECP_WINDOW_ORDER :: "64 word"
  ecp_precompute_comb :: "memory \<Rightarrow> addr \<Rightarrow> 64 word \<Rightarrow> 64 word \<Rightarrow> int \<times> memory"
  ttls_dhm_init :: "memory \<Rightarrow> memory"

definition ttls_mpi_profile_create_ec :: "pk_ops \<Rightarrow> TlsPkCtx \<Rightarrow> kstate \<Rightarrow> addr \<times> kstate" where
  "ttls_mpi_profile_create_ec ops pkey s =
     (case get_free_pages MCTX_ORDER s of
        (mp, s1) \<Rightarrow>
          if mp = 0 then (0, s1)
          else
            let ecdh_ctx = MPI_POOL_DATA mp in
            (case ttls_ecdh_get_params ops (mem s1) ecdh_ctx pkey of
               (r, m1) \<Rightarrow>
                 if r \<noteq> 0 then (0, s1\<lparr>mem := m1\<rparr>)
                 else
                   let m2 = ttls_ecp_point_init ops m1 ecdh_ctx;
                       d = (grp_nbits ops m2 ecdh_ctx + TTLS_ECP_WINDOW_ORDER ops - 1)
                             div TTLS_ECP_WINDOW_ORDER ops
                   in
                   (case ecp_precompute_comb ops m2 ecdh_ctx (TTLS_ECP_WINDOW_ORDER ops) d of
                      (r2, m3) \<Rightarrow>
                        if r2 \<noteq> 0 then (0, s1\<lparr>mem := m3\<rparr>) else (mp, s1\<lparr>mem := m3\<rparr>))))"

text \<open>
  One round of the loop of \<^verbatim>\<open>ttls_mpi_profile_set\<close> either leaves the function
  (\<^verbatim>\<open>Return\<close>) or goes on with the local \<^verbatim>\<open>mp\<close>, the counter \<^verbatim>\<open>n\<close> and the state.
\<close>

datatype loop_result = Return "32 word" kstate | Next addr nat kstate

definition profile_set_body :: "pk_ops \<Rightarrow> TlsPkCtx \<Rightarrow> nat \<Rightarrow> addr \<Rightarrow> nat \<Rightarrow> kstate \<Rightarrow> loop_result" where
  "profile_set_body ops pkey i mp n s =
     (if mpi_profiles s i \<noteq> 0 then Next mp (n + 1) s
      else if \<not> ttls_mpi_profile_for_cert i pkey then Next mp n s
      else
        let r =
          (if mp = 0 then
             (case pk_info_type pkey of
                TTLS_PK_ECKEY \<Rightarrow>
                  (case ttls_mpi_profile_create_ec ops pkey s of
                     (mp', s') \<Rightarrow> if mp' = 0 then Return (- EINVAL) s' else Next mp' n s')
              | TTLS_PK_ECKEY_DH \<Rightarrow>
                  (case ttls_mpi_profile_create_ec ops pkey s of
                     (mp', s') \<Rightarrow> if mp' = 0 then Return (- EINVAL) s' else Next mp' n s')
              | TTLS_PK_ECDSA \<Rightarrow>
                  (case ttls_mpi_profile_create_ec ops pkey s of
                     (mp', s') \<Rightarrow> if mp' = 0 then Return (- EINVAL) s' else Next mp' n s')
              | TTLS_PK_RSA \<Rightarrow> Next mp n (s\<lparr>mem := ttls_dhm_init ops (mem s)\<rparr>)
              | _ \<Rightarrow> Next mp n s)
           else Next mp n s)
        in
        (case r of
           Return e s' \<Rightarrow> Return e s'
         | Next mp' n' s' \<Rightarrow>
             Next mp' (n' + 1) (s'\<lparr>mpi_profiles := (mpi_profiles s')(i := mp')\<rparr>)))"

fun profile_set_loop :: "pk_ops \<Rightarrow> TlsPkCtx \<Rightarrow> nat list \<Rightarrow> addr \<Rightarrow> nat \<Rightarrow> kstate \<Rightarrow> loop_result" where
  "profile_set_loop ops pkey [] mp n s = Next mp n s"
| "profile_set_loop ops pkey (i # is) mp n s =
     (case profile_set_body ops pkey i mp n s of
        Return e s' \<Rightarrow> Return e s'
      | Next mp' n' s' \<Rightarrow> profile_set_loop ops pkey is mp' n' s')"

text \<open>
  The local \<^verbatim>\<open>mp\<close> of \<^verbatim>\<open>ttls_mpi_profile_set\<close> is read before anything is assigned to
  it: the value it happens to hold is the parameter \<^verbatim>\<open>mp_uninit\<close>.
\<close>

definition ttls_mpi_profile_set :: "pk_ops \<Rightarrow> addr \<Rightarrow> ttls_x509_crt \<Rightarrow> kstate \<Rightarrow> 32 word \<times> kstate" where
  "ttls_mpi_profile_set ops mp_uninit crt s =
     (let pkey = pk crt in
      if \<not> has_empty_profile s then (0, s)
      else
        (case profile_set_loop ops pkey [0..<TTLS_MPI_PROFILES_N] mp_uninit 0 s of
           Return e s' \<Rightarrow> (e, s')
         | Next mp n s' \<Rightarrow>
             if n = TTLS_MPI_PROFILES_N then (0, s'\<lparr>has_empty_profile := False\<rparr>)
             else (0, s')))"

text \<open>
  \<^verbatim>\<open>ttls_mpi_profile_alloc\<close> reads the handshake, the peer's profile and the ciphersuite
  of the TLS context and tests the ciphersuite; both branches of the test are empty.
\<close>

record TlsCtx =
  hs :: addr
  peer_conf_mpi_prof :: addr
  xfrm_ciphersuite_info :: nat

definition ttls_mpi_profile_alloc ::
  "(nat \<Rightarrow> bool) \<Rightarrow> (nat \<Rightarrow> bool) \<Rightarrow> TlsCtx \<Rightarrow> kstate \<Rightarrow> 32 word \<times> kstate" where
  "ttls_mpi_profile_alloc ttls_ciphersuite_uses_ecdh ttls_ciphersuite_uses_ecdhe tls s =
     (let hs' = hs tls;
          prof = peer_conf_mpi_prof tls;
          ci = xfrm_ciphersuite_info tls
      in
      if ttls_ciphersuite_uses_ecdh ci \<or> ttls_ciphersuite_uses_ecdhe ci then (0, s)
      else (0, s))"

section \<open>Subsystem start and stop\<close>

text \<open>\<^verbatim>\<open>cpus\<close> is the list of possible CPUs, in the order \<^verbatim>\<open>for_each_possible_cpu\<close> visits them.\<close>

fun exit_profiles :: "nat list \<Rightarrow> kstate \<Rightarrow> kstate" where
  "exit_profiles [] s = s"
| "exit_profiles (i # is) s =
     exit_profiles is
       (if mpi_profiles s i \<noteq> 0 then free_pages (mpi_profiles s i) MCTX_ORDER s else s)"

fun exit_cpus :: "nat list \<Rightarrow> kstate \<Rightarrow> fault + kstate" where
  "exit_cpus [] s = Inr s"
| "exit_cpus (c # cs) s =
     (let p = g_tmp_mpool s c in
      if p = 0 then Inl NULL_DEREF
      else
        exit_cpus cs
          (free_pages p MCTX_ORDER
             (s\<lparr>mem := memset (mem s) (MPI_POOL_DATA p) 0 (pool_curr (mem s) p)\<rparr>)))"

definition ttls_mpool_exit :: "nat list \<Rightarrow> kstate \<Rightarrow> fault + kstate" where
  "ttls_mpool_exit cpus s = exit_cpus cpus (exit_profiles [0..<TTLS_MPI_PROFILES_N] s)"

fun init_cpus :: "nat list \<Rightarrow> nat list \<Rightarrow> kstate \<Rightarrow> fault + (32 word \<times> kstate)" where
  "init_cpus all [] s = Inr (0, s)"
| "init_cpus all (c # cs) s =
     (case get_free_pages MCTX_ORDER s of
        (p, s1) \<Rightarrow>
          let s2 = s1\<lparr>g_tmp_mpool := (g_tmp_mpool s1)(c := p)\<rparr> in
          if p = 0 then
            (case ttls_mpool_exit all s2 of
               Inl e \<Rightarrow> Inl e
             | Inr s3 \<Rightarrow> Inr (- ENOMEM, s3))
          else init_cpus all cs s2)"

definition ttls_mpool_init :: "nat list \<Rightarrow> kstate \<Rightarrow> fault + (32 word \<times> kstate)" where
  "ttls_mpool_init cpus s = init_cpus cpus cpus s"

section \<open>A caller's run of allocations\<close>

text \<open>
  A run of \<^verbatim>\<open>ttls_mpi_profile_alloc_mpi\<close> calls, one per request (descriptor, size), as a
  caller makes them one after the other; a fault stops the run. \<^verbatim>\<open>on_pool f mp\<close> says of
  a run that it is a run on the pool \<^verbatim>\<open>mp\<close>: at the time of each call, in the state the
  earlier calls have left, the resolver \<^verbatim>\<open>f\<close> gives \<^verbatim>\<open>mp\<close> for the descriptor of that
  call. \<^verbatim>\<open>below_free_ptr mp k\<close>
  says of a run that starts with \<^verbatim>\<open>k\<close> bytes in use that every descriptor lies below
  the free pointer at the time of its call, less than 2^31 bytes away (the condition of the
  function's \<^verbatim>\<open>BUG_ON\<close> and the range of its \<^verbatim>\<open>int\<close> result). \<^verbatim>\<open>placed mp k\<close> says of the
  results that none is \<^verbatim>\<open>-ENOMEM\<close> and that each denotes the address right behind the
  bytes handed out before it.
\<close>

fun alloc_calls ::
  "(kstate \<Rightarrow> addr \<Rightarrow> addr) \<Rightarrow> (addr \<times> 64 word) list \<Rightarrow> kstate \<Rightarrow> fault + (32 word list \<times> kstate)" where
  "alloc_calls f [] s = Inr ([], s)"
| "alloc_calls f ((x, n) # rs) s =
     (case ttls_mpi_profile_alloc_mpi f x n s of
        Inl e \<Rightarrow> Inl e
      | Inr (r, s') \<Rightarrow>
          (case alloc_calls f rs s' of
             Inl e \<Rightarrow> Inl e
           | Inr (rets, s'') \<Rightarrow> Inr (r # rets, s'')))"

fun on_pool :: "(kstate \<Rightarrow> addr \<Rightarrow> addr) \<Rightarrow> addr \<Rightarrow> (addr \<times> 64 word) list \<Rightarrow> kstate \<Rightarrow> bool" where
  "on_pool f mp [] s = True"
| "on_pool f mp ((x, n) # rs) s =
     (f s x = mp
      \<and> (case ttls_mpi_profile_alloc_mpi f x n s of
            Inl e \<Rightarrow> True
          | Inr (r, s') \<Rightarrow> on_pool f mp rs s'))"

fun below_free_ptr :: "addr \<Rightarrow> nat \<Rightarrow> (addr \<times> 64 word) list \<Rightarrow> bool" where
  "below_free_ptr mp k [] = True"
| "below_free_ptr mp k ((x, n) # rs) =
     (unat x < unat mp + 16 + k \<and> unat mp + 16 + k - unat x < 2 ^ 31
      \<and> below_free_ptr mp (k + unat n) rs)"

fun placed :: "addr \<Rightarrow> nat \<Rightarrow> (addr \<times> 64 word) list \<Rightarrow> 32 word list \<Rightarrow> bool" where
  "placed mp k [] rets = (rets = [])"
| "placed mp k ((x, n) # rs) rets =
     (case rets of
        [] \<Rightarrow> False
      | r # rets' \<Rightarrow>
          r \<noteq> - ENOMEM \<and> mpi_data x r = mp + 16 + of_nat k \<and> placed mp (k + unat n) rs rets')"


section \<open>Steps of the subsystem\<close>

text \<open>
  One step of the subsystem is one completed call of one of its functions, with any
  arguments. A call that faults completes nothing and is no step.
\<close>

inductive mpool_step :: "kstate \<Rightarrow> kstate \<Rightarrow> bool" where
  step_pool_init: "ttls_mpi_pool_init mp s = Inr s' \<Longrightarrow> mpool_step s s'"
| step_alloc_mpi: "ttls_mpi_profile_alloc_mpi f x n s = Inr (r, s') \<Longrightarrow> mpool_step s s'"
| step_cleanup_ctx: "ttls_mpi_cleanup_ctx mem_alloc cpu s = Inr s' \<Longrightarrow> mpool_step s s'"
| step_free_mpool: "ttls_mpi_free_mpool ctx s = s' \<Longrightarrow> mpool_step s s'"
| step_pool_alloc: "ttls_mpi_pool_alloc n s = Inr (p, s') \<Longrightarrow> mpool_step s s'"
| step_profile_set: "ttls_mpi_profile_set ops mp_uninit crt s = (e, s') \<Longrightarrow> mpool_step s s'"
| step_profile_alloc: "ttls_mpi_profile_alloc uses_ecdh uses_ecdhe tls s = (e, s') \<Longrightarrow> mpool_step s s'"
| step_mpool_exit: "ttls_mpool_exit cpus s = Inr s' \<Longrightarrow> mpool_step s s'"
| step_mpool_init: "ttls_mpool_init cpus s = Inr (e, s') \<Longrightarrow> mpool_step s s'"

text \<open>
  The registry part of the state: the profile slots and the flag.
\<close>

definition registry_of :: "kstate \<Rightarrow> (nat \<Rightarrow> addr) \<times> bool" where
  "registry_of s = (mpi_profiles s, has_empty_profile s)"

section \<open>Concrete inputs\<close>

text \<open>
  A stand-in for the elliptic-curve routines, to run the registry on concrete inputs:
  reading the key parameters stores one byte of key material (170) at the start of the
  context, and every routine succeeds. \<^verbatim>\<open>ec_crt\<close> and \<^verbatim>\<open>rsa_crt\<close> are certificates with an
  elliptic-curve and an RSA key; in \<^verbatim>\<open>seven_filled\<close> every profile slot but the first is
  taken. \<^verbatim>\<open>cpu0_ready\<close> is the state in which \<^verbatim>\<open>ttls_mpool_init\<close> on one CPU leaves a
  freshly booted system whose allocator has the page 1048576 to give: CPU 0 owns that
  page, zero-filled, as its pool for temporary MPIs.
\<close>

definition demo_ops :: pk_ops where
  "demo_ops =
     \<lparr>ttls_ecdh_get_params = (\<lambda>m ctx pkey. (0, m(ctx := 170))),
      ttls_ecp_point_init = (\<lambda>m p. m),
      grp_nbits = (\<lambda>m ctx. 256),
      TTLS_ECP_WINDOW_ORDER = 4,
      ecp_precompute_comb = (\<lambda>m ctx w d. (0, m)),
      ttls_dhm_init = (\<lambda>m. m)\<rparr>"


definition cpu0_ready :: kstate where
  "cpu0_ready =
     \<lparr>mem = (\<lambda>_. 0), mpi_profiles = (\<lambda>_. 0), g_tmp_mpool = (\<lambda>_. 0)(0 := 1048576),
      has_empty_profile = True, buddy = [], freed = []\<rparr>"

definition ec_crt :: ttls_x509_crt where
  "ec_crt = \<lparr>pk = \<lparr>pk_info_type = TTLS_PK_ECKEY, pk_ctx = 0\<rparr>\<rparr>"

definition rsa_crt :: ttls_x509_crt where
  "rsa_crt = \<lparr>pk = \<lparr>pk_info_type = TTLS_PK_RSA, pk_ctx = 0\<rparr>\<rparr>"

section \<open>Memory lemmas\<close>

lemma cat8_split:
  "cat8 (ucast v) (ucast (drop_bit 8 v)) (ucast (drop_bit 16 v)) (ucast (drop_bit 24 v))
     (ucast (drop_bit 32 v)) (ucast (drop_bit 40 v)) (ucast (drop_bit 48 v))
     (ucast (drop_bit 56 v)) = (v :: 64 word)"
proof (rule bit_word_eqI)
  fix k :: nat
  assume "k < LENGTH(64)"
  then have k: "k < 64" by simp
  consider "k < 8" | "8 \<le> k \<and> k < 16" | "16 \<le> k \<and> k < 24" | "24 \<le> k \<and> k < 32"
    | "32 \<le> k \<and> k < 40" | "40 \<le> k \<and> k < 48" | "48 \<le> k \<and> k < 56" | "56 \<le> k \<and> k < 64"
    using k by linarith
  then show "bit (cat8 (ucast v) (ucast (drop_bit 8 v)) (ucast (drop_bit 16 v))
      (ucast (drop_bit 24 v)) (ucast (drop_bit 32 v)) (ucast (drop_bit 40 v))
      (ucast (drop_bit 48 v)) (ucast (drop_bit 56 v))) k = bit v k"
    unfolding cat8_def by cases (auto simp: bit_simps)
qed

lemma load64_store64_same: "load64 (store64 m a v) a = v"
  by (simp add: load64_def store64_def cat8_split)

lemma load64_store64_next: "load64 (store64 m a v) (a + 8) = load64 m (a + 8)"
  by (simp add: load64_def store64_def)

lemma load64_store64_prev: "load64 (store64 m (a + 8) v) a = load64 m a"
  by (simp add: load64_def store64_def)

lemma store64_outside: "8 \<le> b - a \<Longrightarrow> store64 m a v b = m b"
  by (auto simp: store64_def word_le_nat_alt)

lemma load64_cong:
  assumes "\<And>k. k < 8 \<Longrightarrow> m (a + k) = m' (a + k)"
  shows "load64 m a = load64 m' a"
proof -
  have "m (a + 0) = m' (a + 0)" by (rule assms) simp
  moreover have "m (a + 1) = m' (a + 1)" by (rule assms) simp
  moreover have "m (a + 2) = m' (a + 2)" by (rule assms) simp
  moreover have "m (a + 3) = m' (a + 3)" by (rule assms) simp
  moreover have "m (a + 4) = m' (a + 4)" by (rule assms) simp
  moreover have "m (a + 5) = m' (a + 5)" by (rule assms) simp
  moreover have "m (a + 6) = m' (a + 6)" by (rule assms) simp
  moreover have "m (a + 7) = m' (a + 7)" by (rule assms) simp
  ultimately show ?thesis by (simp add: load64_def)
qed

lemma load64_zero: "load64 (\<lambda>_. 0) a = 0"
  by (simp add: load64_def cat8_def)

lemma curr_set_curr: "pool_curr (set_curr m mp v) mp = v"
  by (simp add: pool_curr_def set_curr_def load64_store64_same)

lemma size_set_size: "pool_size (set_size m mp v) mp = v"
  by (simp add: pool_size_def set_size_def load64_store64_same)

lemma size_set_curr: "pool_size (set_curr m mp v) mp = pool_size m mp"
  by (simp add: pool_size_def set_curr_def load64_store64_next)

lemma curr_set_size: "pool_curr (set_size m mp v) mp = pool_curr m mp"
  by (simp add: pool_curr_def set_size_def load64_store64_prev)

lemma set_curr_outside: "16 \<le> b - mp \<Longrightarrow> set_curr m mp v b = m b"
  by (simp add: set_curr_def store64_outside word_le_nat_alt)

lemma set_size_outside: "16 \<le> b - mp \<Longrightarrow> set_size m mp v b = m b"
proof -
  assume a: "16 \<le> b - mp"
  have e: "b - (mp + 8) = (b - mp) - 8"
    by simp
  have "8 \<le> b - mp"
    using a by (simp add: word_le_nat_alt)
  then have "unat ((b - mp) - 8) = unat (b - mp) - 8"
    by (simp add: unat_sub)
  then have "8 \<le> b - (mp + 8)"
    using a unfolding e by (simp add: word_le_nat_alt)
  then show ?thesis
    by (simp add: set_size_def store64_outside)
qed

lemma unat_PAGE_SIZE: "unat PAGE_SIZE = 4096"
  by (simp add: PAGE_SIZE_def)

lemma alloc_check_nat:
  assumes "unat sz + unat n + 16 < 2 ^ 64"
  shows "(sizeof_TlsMpiPool + sz + n > PAGE_SIZE) = (4096 < 16 + unat sz + unat (n :: 64 word))"
proof -
  have "unat (sizeof_TlsMpiPool + sz + n) = 16 + unat sz + unat n"
    using assms by (simp add: sizeof_TlsMpiPool_def unat_word_ariths)
  then show ?thesis
    by (simp add: word_less_nat_alt unat_PAGE_SIZE)
qed

lemma scast_ucast_small:
  assumes "unat (d :: 64 word) < 2 ^ 31"
  shows "(scast (ucast d :: 32 word) :: 64 word) = d"
proof (rule bit_word_eqI)
  fix k assume k: "k < LENGTH(64)"
  have nb: "\<not> bit d j" if "31 \<le> j" for j
  proof -
    have "(2::nat) ^ 31 \<le> 2 ^ j"
      using that by (intro power_increasing) simp_all
    then have "unat d < 2 ^ j"
      using assms by linarith
    then have "unat d div 2 ^ j = 0"
      by simp
    then have "\<not> bit (unat d) j"
      by (simp add: bit_iff_odd)
    then show ?thesis
      by (simp add: bit_unsigned_iff)
  qed
  show "bit (scast (ucast d :: 32 word) :: 64 word) k = bit d k"
    using nb [of k] nb [of 31] k by (cases "31 \<le> k") (auto simp: bit_simps min_def)
qed

lemma ucast_small_not_ENOMEM:
  assumes "unat (d :: 64 word) < 2 ^ 31"
  shows "(ucast d :: 32 word) \<noteq> - ENOMEM"
proof
  assume e: "(ucast d :: 32 word) = - ENOMEM"
  have "unat (ucast d :: 32 word) = unat d"
    using assms by (simp add: unsigned_ucast_eq take_bit_eq_mod)
  moreover have "unat (- ENOMEM) = 4294967284"
    by (simp add: ENOMEM_def)
  ultimately show False
    using assms e by simp
qed

lemma mpi_data_distance: "unat (p - x) < 2 ^ 31 \<Longrightarrow> mpi_data x (ucast (p - x)) = p"
  by (simp add: mpi_data_def scast_ucast_small)

lemma and_split: "(b AND m) + (b AND NOT m) = (b :: 64 word)"
proof -
  have "((b AND m) AND (b AND NOT m)) + ((b AND m) OR (b AND NOT m)) = (b AND m) + (b AND NOT m)"
    by (rule word_plus_and_or)
  moreover have "(b AND m) AND (b AND NOT m) = 0"
    by (rule bit_word_eqI) (simp add: bit_simps)
  moreover have "(b AND m) OR (b AND NOT m) = b"
    by (rule bit_word_eqI) (auto simp: bit_simps)
  ultimately show ?thesis by simp
qed

lemma page_offset_small: "b - (b AND PAGE_MASK) < PAGE_SIZE"
proof -
  have "b - (b AND PAGE_MASK) = b AND NOT PAGE_MASK"
    using and_split [of b PAGE_MASK] by (simp add: algebra_simps)
  moreover have "b AND NOT PAGE_MASK \<le> 4095"
    unfolding PAGE_MASK_def PAGE_SIZE_def by (simp add: word_and_le1)
  ultimately show ?thesis
    by (simp add: PAGE_SIZE_def word_le_nat_alt word_less_nat_alt)
qed

lemma memset_none: "memset m d c 0 = m"
  by (simp add: memset_def)

lemma mem_free_pages: "mem (free_pages a order s) = mem s"
  by (simp add: free_pages_def)

lemma mem_exit_profiles: "mem (exit_profiles is s) = mem s"
  by (induction "is" arbitrary: s) (simp_all add: mem_free_pages)

lemma bzero_zero_mem: "bzero_fast (\<lambda>_. 0) d n = (\<lambda>_. 0)"
  by (simp add: bzero_fast_def memset_def fun_eq_iff)

lemma header_not_in_data:
  assumes "unat k < 16" "unat n \<le> 4080"
  shows "\<not> ((mp + k) - MPI_POOL_DATA mp < (n :: 64 word))"
proof -
  have e: "(mp + k) - MPI_POOL_DATA mp = k - 16"
    by (simp add: MPI_POOL_DATA_def sizeof_TlsMpiPool_def)
  have "unat (k - 16) = unat k + 2 ^ 64 - 16"
    using assms(1) by (simp add: unat_sub_if' word_le_nat_alt)
  then show ?thesis
    unfolding e using assms by (simp add: word_less_nat_alt)
qed

lemma curr_bzero_data:
  assumes "unat n \<le> 4080"
  shows "pool_curr (bzero_fast m (MPI_POOL_DATA mp) n) mp = pool_curr m mp"
  unfolding pool_curr_def
proof (rule load64_cong)
  fix k :: "64 word" assume "k < 8"
  then have "unat k < 16" by (simp add: word_less_nat_alt)
  from header_not_in_data [OF this assms, of mp]
  show "bzero_fast m (MPI_POOL_DATA mp) n (mp + k) = m (mp + k)"
    by (simp add: bzero_fast_def memset_def)
qed

lemma size_bzero_data:
  assumes "unat n \<le> 4080"
  shows "pool_size (bzero_fast m (MPI_POOL_DATA mp) n) mp = pool_size m mp"
  unfolding pool_size_def
proof (rule load64_cong)
  fix k :: "64 word" assume "k < 8"
  then have "unat (8 + k) < 16" by (simp add: word_less_nat_alt unat_word_ariths)
  from header_not_in_data [OF this assms, of mp]
  show "bzero_fast m (MPI_POOL_DATA mp) n (mp + 8 + k) = m (mp + 8 + k)"
    by (simp add: bzero_fast_def memset_def add.assoc)
qed

lemma data_outside_header:
  assumes "b - MPI_POOL_DATA mp < n" "unat n \<le> 4080"
  shows "16 \<le> b - mp"
proof -
  have e: "b - mp = (b - MPI_POOL_DATA mp) + 16"
    by (simp add: MPI_POOL_DATA_def sizeof_TlsMpiPool_def)
  have "unat (b - MPI_POOL_DATA mp) < 4080"
    using assms by (simp add: word_less_nat_alt)
  then have "unat ((b - MPI_POOL_DATA mp) + 16) = unat (b - MPI_POOL_DATA mp) + 16"
    by (simp add: unat_word_ariths)
  then show ?thesis
    unfolding e by (simp add: word_le_nat_alt)
qed

section \<open>Registry lemmas\<close>

lemma upt_profiles: "[0..<TTLS_MPI_PROFILES_N] = [0, 1, 2, 3, 4, 5, 6, 7]"
  unfolding TTLS_MPI_PROFILES_N_def by (simp add: upt_rec)

lemma for_cert_iff:
  "ttls_mpi_profile_for_cert i pkey \<longleftrightarrow> i = 0 \<and> pk_info_type pkey = TTLS_PK_ECKEY"
  by (simp add: ttls_mpi_profile_for_cert_def TTLS_MPI_PROFILE_ECDH_def split: ttls_pk_type_t.splits)

lemma get_free_pages_frame:
  "get_free_pages order s = (p, s') \<Longrightarrow>
     mpi_profiles s' = mpi_profiles s \<and> has_empty_profile s' = has_empty_profile s
     \<and> g_tmp_mpool s' = g_tmp_mpool s \<and> freed s' = freed s"
  by (auto simp: get_free_pages_def split: list.splits if_splits)

lemma create_ec_frame:
  "ttls_mpi_profile_create_ec ops pkey s = (p, s') \<Longrightarrow>
     mpi_profiles s' = mpi_profiles s \<and> has_empty_profile s' = has_empty_profile s
     \<and> g_tmp_mpool s' = g_tmp_mpool s \<and> freed s' = freed s"
  unfolding ttls_mpi_profile_create_ec_def
  by (auto simp: Let_def split: prod.splits if_splits dest!: get_free_pages_frame)

lemma body_skip:
  "mpi_profiles s i \<noteq> 0 \<or> \<not> ttls_mpi_profile_for_cert i pkey \<Longrightarrow>
     profile_set_body ops pkey i mp n s = Next mp (if mpi_profiles s i \<noteq> 0 then n + 1 else n) s"
  by (auto simp: profile_set_body_def)

lemma body_Next:
  assumes "profile_set_body ops pkey i mp n s = Next mp' n' s'"
  shows "(if mpi_profiles s' i \<noteq> 0 then n' = n + 1 else n' = n \<and> \<not> ttls_mpi_profile_for_cert i pkey)
     \<and> (\<forall>j. j \<noteq> i \<longrightarrow> mpi_profiles s' j = mpi_profiles s j)
     \<and> (mpi_profiles s i \<noteq> 0 \<longrightarrow> mpi_profiles s' i = mpi_profiles s i)
     \<and> (\<not> ttls_mpi_profile_for_cert i pkey \<longrightarrow> mpi_profiles s' i = mpi_profiles s i)
     \<and> has_empty_profile s' = has_empty_profile s"
proof (cases "mpi_profiles s i \<noteq> 0 \<or> \<not> ttls_mpi_profile_for_cert i pkey")
  case True
  then show ?thesis
    using assms by (auto simp: body_skip split: if_splits)
next
  case False
  then have e: "mpi_profiles s i = 0" "pk_info_type pkey = TTLS_PK_ECKEY"
    by (auto simp: for_cert_iff)
  show ?thesis
  proof (cases "mp = 0")
    case True
    obtain p s1 where c: "ttls_mpi_profile_create_ec ops pkey s = (p, s1)"
      by (cases "ttls_mpi_profile_create_ec ops pkey s")
    then show ?thesis
      using assms False e True create_ec_frame [OF c]
      by (auto simp: profile_set_body_def split: if_splits)
  next
    case False
    then show ?thesis
      using assms e \<open>\<not> (mpi_profiles s i \<noteq> 0 \<or> \<not> ttls_mpi_profile_for_cert i pkey)\<close>
      by (auto simp: profile_set_body_def)
  qed
qed

lemma loop_skip:
  "(\<And>i. i \<in> set is \<Longrightarrow> mpi_profiles s i \<noteq> 0 \<or> \<not> ttls_mpi_profile_for_cert i pkey) \<Longrightarrow>
     profile_set_loop ops pkey is mp n s
       = Next mp (n + length (filter (\<lambda>i. mpi_profiles s i \<noteq> 0) is)) s"
  by (induction "is" arbitrary: n) (simp_all add: body_skip)

lemma loop_Next:
  "distinct is \<Longrightarrow> profile_set_loop ops pkey is mp n s = Next mp' n' s' \<Longrightarrow>
     n' = n + length (filter (\<lambda>i. mpi_profiles s' i \<noteq> 0) is)
     \<and> (\<forall>i\<in>set is. mpi_profiles s' i \<noteq> 0 \<or> \<not> ttls_mpi_profile_for_cert i pkey)
     \<and> (\<forall>j. j \<notin> set is \<longrightarrow> mpi_profiles s' j = mpi_profiles s j)
     \<and> (\<forall>j. mpi_profiles s j \<noteq> 0 \<longrightarrow> mpi_profiles s' j = mpi_profiles s j)
     \<and> (\<forall>j. \<not> ttls_mpi_profile_for_cert j pkey \<longrightarrow> mpi_profiles s' j = mpi_profiles s j)
     \<and> has_empty_profile s' = has_empty_profile s"
proof (induction "is" arbitrary: mp n s)
  case Nil
  then show ?case by simp
next
  case (Cons i "is")
  from Cons.prems(2) obtain mp1 n1 s1 where
    b: "profile_set_body ops pkey i mp n s = Next mp1 n1 s1"
    and l: "profile_set_loop ops pkey is mp1 n1 s1 = Next mp' n' s'"
    by (auto split: loop_result.splits)
  from Cons.prems(1) have d: "distinct is" and ni: "i \<notin> set is" by simp_all
  note B = body_Next [OF b]
  note L = Cons.IH [OF d l]
  have keep: "mpi_profiles s' i = mpi_profiles s1 i"
    using L ni by simp
  have cnt: "n1 = n + (if mpi_profiles s' i \<noteq> 0 then 1 else 0)"
    and here: "mpi_profiles s' i \<noteq> 0 \<or> \<not> ttls_mpi_profile_for_cert i pkey"
    using B unfolding keep by (cases "mpi_profiles s1 i \<noteq> 0"; simp)+
  show ?case
  proof (intro conjI ballI allI impI)
    show "n' = n + length (filter (\<lambda>i. mpi_profiles s' i \<noteq> 0) (i # is))"
      using cnt L by simp
  next
    fix k assume "k \<in> set (i # is)"
    then have "k = i \<or> k \<in> set is" by simp
    then show "mpi_profiles s' k \<noteq> 0 \<or> \<not> ttls_mpi_profile_for_cert k pkey"
      using here L by blast
  next
    fix j assume "j \<notin> set (i # is)"
    then show "mpi_profiles s' j = mpi_profiles s j"
      using B L by simp
  next
    fix j assume j: "mpi_profiles s j \<noteq> 0"
    have "mpi_profiles s1 j = mpi_profiles s j"
      using B j by (cases "j = i") simp_all
    then show "mpi_profiles s' j = mpi_profiles s j"
      using L j by simp
  next
    fix j assume j: "\<not> ttls_mpi_profile_for_cert j pkey"
    have "mpi_profiles s1 j = mpi_profiles s j"
      using B j by (cases "j = i") simp_all
    then show "mpi_profiles s' j = mpi_profiles s j"
      using L j by simp
  next
    show "has_empty_profile s' = has_empty_profile s"
      using B L by simp
  qed
qed

lemma filter_all: "length (filter P xs) = length xs \<Longrightarrow> x \<in> set xs \<Longrightarrow> P x"
  by (metis filter_id_conv length_filter_less less_irrefl_nat)

lemma body_Return:
  assumes "profile_set_body ops pkey i mp n s = Return e s'"
  shows "e = - EINVAL \<and> registry_of s' = registry_of s"
proof -
  have ne: "\<not> (mpi_profiles s i \<noteq> 0 \<or> \<not> ttls_mpi_profile_for_cert i pkey)"
  proof
    assume "mpi_profiles s i \<noteq> 0 \<or> \<not> ttls_mpi_profile_for_cert i pkey"
    from body_skip [OF this, of ops mp n] assms show False
      by simp
  qed
  then have e: "pk_info_type pkey = TTLS_PK_ECKEY"
    by (auto simp: for_cert_iff)
  obtain p s1 where c: "ttls_mpi_profile_create_ec ops pkey s = (p, s1)"
    by (cases "ttls_mpi_profile_create_ec ops pkey s")
  show ?thesis
    using assms ne e c create_ec_frame [OF c]
    by (auto simp: profile_set_body_def registry_of_def split: if_splits)
qed

lemma loop_Return:
  "distinct is \<Longrightarrow> profile_set_loop ops pkey is mp n s = Return e s' \<Longrightarrow>
     e = - EINVAL \<and> has_empty_profile s' = has_empty_profile s
     \<and> (\<forall>j. j \<notin> set is \<longrightarrow> mpi_profiles s' j = mpi_profiles s j)
     \<and> (\<forall>j. mpi_profiles s j \<noteq> 0 \<longrightarrow> mpi_profiles s' j = mpi_profiles s j)
     \<and> (\<forall>j. \<not> ttls_mpi_profile_for_cert j pkey \<longrightarrow> mpi_profiles s' j = mpi_profiles s j)"
proof (induction "is" arbitrary: mp n s)
  case Nil
  then show ?case by simp
next
  case (Cons i "is")
  show ?case
  proof (cases "profile_set_body ops pkey i mp n s")
    case (Return e1 s1)
    then have "e1 = e" "s1 = s'" using Cons.prems(2) by simp_all
    then show ?thesis
      using body_Return [OF Return] by (simp add: registry_of_def)
  next
    case (Next mp1 n1 s1)
    then have l: "profile_set_loop ops pkey is mp1 n1 s1 = Return e s'"
      using Cons.prems(2) by simp
    from Cons.prems(1) have d: "distinct is" by simp
    note B = body_Next [OF Next]
    note L = Cons.IH [OF d l]
    have "mpi_profiles s1 j = mpi_profiles s j" if "mpi_profiles s j \<noteq> 0" for j
      using B that by (cases "j = i") simp_all
    moreover have "mpi_profiles s1 j = mpi_profiles s j"
      if "\<not> ttls_mpi_profile_for_cert j pkey" for j
      using B that by (cases "j = i") simp_all
    ultimately show ?thesis
      using B L by auto
  qed
qed

lemma profile_set_flag:
  assumes "ttls_mpi_profile_set ops mp0 crt s = (e, s')"
  shows "(\<not> has_empty_profile s \<longrightarrow> \<not> has_empty_profile s')
     \<and> (has_empty_profile s \<and> \<not> has_empty_profile s' \<longrightarrow>
          (\<forall>i<TTLS_MPI_PROFILES_N. mpi_profiles s' i \<noteq> 0))"
proof (cases "has_empty_profile s")
  case False
  then show ?thesis
    using assms by (simp add: ttls_mpi_profile_set_def)
next
  case True
  show ?thesis
  proof (cases "profile_set_loop ops (pk crt) [0..<TTLS_MPI_PROFILES_N] mp0 0 s")
    case (Return e1 s1)
    then have "s' = s1"
      using assms True by (simp add: ttls_mpi_profile_set_def)
    then show ?thesis
      using True loop_Return [OF _ Return] by simp
  next
    case (Next mp1 n1 s1)
    note L = loop_Next [OF _ Next, simplified]
    show ?thesis
    proof (cases "n1 = TTLS_MPI_PROFILES_N")
      case False
      then have "s' = s1"
        using assms True Next by (simp add: ttls_mpi_profile_set_def)
      then show ?thesis
        using True L by simp
    next
      case n: True
      then have s': "s' = s1\<lparr>has_empty_profile := False\<rparr>"
        using assms True Next by (simp add: ttls_mpi_profile_set_def)
      have "length (filter (\<lambda>i. mpi_profiles s1 i \<noteq> 0) [0..<TTLS_MPI_PROFILES_N])
              = length [0..<TTLS_MPI_PROFILES_N]"
        using L n by simp
      then have "mpi_profiles s1 i \<noteq> 0" if "i < TTLS_MPI_PROFILES_N" for i
        using filter_all [of "\<lambda>i. mpi_profiles s1 i \<noteq> 0" "[0..<TTLS_MPI_PROFILES_N]" i] that
        by simp
      then show ?thesis
        using s' by simp
    qed
  qed
qed


lemma filter_all_iff: "length (filter P xs) = length xs \<longleftrightarrow> (\<forall>x\<in>set xs. P x)"
  using filter_all [of P xs] by auto

lemma profile_set_settled:
  assumes "\<And>i. i < TTLS_MPI_PROFILES_N \<Longrightarrow>
             mpi_profiles s i \<noteq> 0 \<or> \<not> ttls_mpi_profile_for_cert i (pk crt)"
  shows "ttls_mpi_profile_set ops mp0 crt s =
           (0, if has_empty_profile s \<and> (\<forall>i<TTLS_MPI_PROFILES_N. mpi_profiles s i \<noteq> 0)
               then s\<lparr>has_empty_profile := False\<rparr> else s)"
proof -
  have l: "profile_set_loop ops (pk crt) [0..<TTLS_MPI_PROFILES_N] mp0 0 s
      = Next mp0 (0 + length (filter (\<lambda>i. mpi_profiles s i \<noteq> 0) [0..<TTLS_MPI_PROFILES_N])) s"
    by (rule loop_skip) (use assms in auto)
  have c: "length (filter (\<lambda>i. mpi_profiles s i \<noteq> 0) [0..<TTLS_MPI_PROFILES_N]) = TTLS_MPI_PROFILES_N
      \<longleftrightarrow> (\<forall>i<TTLS_MPI_PROFILES_N. mpi_profiles s i \<noteq> 0)"
    using filter_all_iff [of "\<lambda>i. mpi_profiles s i \<noteq> 0" "[0..<TTLS_MPI_PROFILES_N]"] by auto
  show ?thesis
    using c by (simp add: ttls_mpi_profile_set_def l)
qed

lemma profile_set_other_key:
  assumes "pk_info_type (pk crt) \<noteq> TTLS_PK_ECKEY"
  shows "ttls_mpi_profile_set ops mp0 crt s =
           (0, if has_empty_profile s \<and> (\<forall>i<TTLS_MPI_PROFILES_N. mpi_profiles s i \<noteq> 0)
               then s\<lparr>has_empty_profile := False\<rparr> else s)"
  by (rule profile_set_settled) (simp add: for_cert_iff assms)

lemma profile_set_creates:
  assumes "has_empty_profile s" "mpi_profiles s 0 = 0"
    and "pk_info_type (pk crt) = TTLS_PK_ECKEY"
    and c: "ttls_mpi_profile_create_ec ops (pk crt) s = (p, s1)" and "p \<noteq> 0"
  shows "ttls_mpi_profile_set ops 0 crt s =
           (0, s1\<lparr>mpi_profiles := (mpi_profiles s)(0 := p),
                  has_empty_profile := (\<exists>i\<in>{1, 2, 3, 4, 5, 6, 7}. mpi_profiles s i = 0)\<rparr>)"
proof -
  note F = create_ec_frame [OF c]
  let ?s2 = "s1\<lparr>mpi_profiles := (mpi_profiles s)(0 := p)\<rparr>"
  have b: "profile_set_body ops (pk crt) 0 0 0 s = Next p 1 ?s2"
    using assms F by (simp add: profile_set_body_def for_cert_iff)
  have l: "profile_set_loop ops (pk crt) [1, 2, 3, 4, 5, 6, 7] p 1 ?s2
      = Next p (1 + length (filter (\<lambda>i. mpi_profiles ?s2 i \<noteq> 0) [1, 2, 3, 4, 5, 6, 7])) ?s2"
    by (rule loop_skip) (auto simp: for_cert_iff)
  have n: "(1 + length (filter (\<lambda>i. mpi_profiles ?s2 i \<noteq> 0) [1, 2, 3, 4, 5, 6, 7]) = 8)
      \<longleftrightarrow> \<not> (\<exists>i\<in>{1, 2, 3, 4, 5, 6, 7}. mpi_profiles s i = 0)"
    using filter_all_iff [of "\<lambda>i. mpi_profiles ?s2 i \<noteq> 0" "[1, 2, 3, 4, 5, 6, 7]"] by simp
  have loop_all: "profile_set_loop ops (pk crt) [0, 1, 2, 3, 4, 5, 6, 7] 0 0 s
      = Next p (1 + length (filter (\<lambda>i. mpi_profiles ?s2 i \<noteq> 0) [1, 2, 3, 4, 5, 6, 7])) ?s2"
    by (subst profile_set_loop.simps(2)) (simp only: b loop_result.case l)
  have t: "has_empty_profile s1" using F assms(1) by simp
  have r: "ttls_mpi_profile_set ops 0 crt s =
      (0, if 1 + length (filter (\<lambda>i. mpi_profiles ?s2 i \<noteq> 0) [1, 2, 3, 4, 5, 6, 7]) = 8
          then ?s2\<lparr>has_empty_profile := False\<rparr> else ?s2)"
    unfolding ttls_mpi_profile_set_def Let_def upt_profiles loop_all
    using assms(1) by (simp add: TTLS_MPI_PROFILES_N_def)
  show ?thesis
  proof (cases "\<exists>i\<in>{1, 2, 3, 4, 5, 6, 7}. mpi_profiles s i = 0")
    case True
    have "?s2 = s1\<lparr>mpi_profiles := (mpi_profiles s)(0 := p), has_empty_profile := True\<rparr>"
      using t by (cases s1) simp
    then show ?thesis
      unfolding r using True n by presburger
  next
    case False
    then show ?thesis
      unfolding r using n by simp
  qed
qed

lemma demo_create_ec_state:
  "buddy s = p # ps \<Longrightarrow> p \<noteq> 0 \<Longrightarrow> ttls_mpi_profile_create_ec demo_ops pkey s =
      (p, s\<lparr>mem := (bzero_fast (mem s) p PAGE_SIZE)(p + 16 := 170), buddy := ps\<rparr>)"
  by (simp add: ttls_mpi_profile_create_ec_def get_free_pages_def demo_ops_def
      MCTX_ORDER_def MPI_POOL_DATA_def sizeof_TlsMpiPool_def)

lemma registry_pool_init: "ttls_mpi_pool_init mp s = Inr s' \<Longrightarrow> registry_of s' = registry_of s"
  by (auto simp: ttls_mpi_pool_init_def registry_of_def Let_def split: if_splits)

lemma registry_alloc_mpi:
  "ttls_mpi_profile_alloc_mpi f x n s = Inr (r, s') \<Longrightarrow> registry_of s' = registry_of s"
  by (auto simp: ttls_mpi_profile_alloc_mpi_def registry_of_def Let_def split: if_splits)

lemma registry_cleanup_ctx:
  "ttls_mpi_cleanup_ctx ma cpu s = Inr s' \<Longrightarrow> registry_of s' = registry_of s"
  by (auto simp: ttls_mpi_cleanup_ctx_def registry_of_def Let_def split: if_splits)

lemma registry_free_pages: "registry_of (free_pages a order s) = registry_of s"
  by (simp add: free_pages_def registry_of_def)

lemma registry_free_mpool: "registry_of (ttls_mpi_free_mpool ctx s) = registry_of s"
  by (simp add: ttls_mpi_free_mpool_def Let_def registry_free_pages) (simp add: registry_of_def)

lemma registry_get_free_pages:
  "get_free_pages order s = (p, s') \<Longrightarrow> registry_of s' = registry_of s"
  using get_free_pages_frame [of order s p s'] by (simp add: registry_of_def)

lemma registry_pool_alloc:
  assumes "ttls_mpi_pool_alloc n s = Inr (p, s')"
  shows "registry_of s' = registry_of s"
proof -
  obtain mp s1 where g: "get_free_pages MCTX_ORDER s = (mp, s1)"
    by (cases "get_free_pages MCTX_ORDER s")
  show ?thesis
  proof (cases "mp = 0")
    case True
    then show ?thesis
      using assms g registry_get_free_pages [OF g]
      by (auto simp: ttls_mpi_pool_alloc_def split: if_splits)
  next
    case False
    then obtain s2 where i: "ttls_mpi_pool_init mp s1 = Inr s2"
      by (auto simp: ttls_mpi_pool_init_def Let_def)
    then have "registry_of s' = registry_of s2"
      using assms g False by (auto simp: ttls_mpi_pool_alloc_def registry_of_def split: if_splits)
    then show ?thesis
      using registry_pool_init [OF i] registry_get_free_pages [OF g] by simp
  qed
qed

lemma registry_profile_alloc:
  "ttls_mpi_profile_alloc e1 e2 tls s = (r, s') \<Longrightarrow> registry_of s' = registry_of s"
  by (auto simp: ttls_mpi_profile_alloc_def Let_def split: if_splits)

lemma registry_exit_profiles: "registry_of (exit_profiles is s) = registry_of s"
  by (induction "is" arbitrary: s) (simp_all add: registry_free_pages)

lemma registry_exit_cpus: "exit_cpus cs s = Inr s' \<Longrightarrow> registry_of s' = registry_of s"
proof (induction cs arbitrary: s)
  case Nil
  then show ?case by simp
next
  case (Cons c cs)
  let ?p = "g_tmp_mpool s c"
  let ?s1 = "free_pages ?p MCTX_ORDER
               (s\<lparr>mem := memset (mem s) (MPI_POOL_DATA ?p) 0 (pool_curr (mem s) ?p)\<rparr>)"
  from Cons.prems have "exit_cpus cs ?s1 = Inr s'"
    by (simp add: Let_def split: if_splits)
  from Cons.IH [OF this] show ?case
    by (simp add: registry_free_pages) (simp add: registry_of_def)
qed

lemma registry_mpool_exit: "ttls_mpool_exit cpus s = Inr s' \<Longrightarrow> registry_of s' = registry_of s"
  unfolding ttls_mpool_exit_def
  using registry_exit_cpus [of cpus "exit_profiles [0..<TTLS_MPI_PROFILES_N] s" s']
  by (simp add: registry_exit_profiles)

lemma registry_init_cpus:
  "init_cpus all cs s = Inr (r, s') \<Longrightarrow> registry_of s' = registry_of s"
proof (induction cs arbitrary: s)
  case Nil
  then show ?case by simp
next
  case (Cons c cs)
  obtain p s1 where g: "get_free_pages MCTX_ORDER s = (p, s1)"
    by (cases "get_free_pages MCTX_ORDER s")
  let ?s2 = "s1\<lparr>g_tmp_mpool := (g_tmp_mpool s1)(c := p)\<rparr>"
  have s2: "registry_of ?s2 = registry_of s"
    using registry_get_free_pages [OF g] by (simp add: registry_of_def)
  show ?case
  proof (cases "p = 0")
    case True
    then obtain s3 where "ttls_mpool_exit all ?s2 = Inr s3" "s' = s3"
      using Cons.prems g by (auto split: sum.splits)
    then show ?thesis
      using registry_mpool_exit [of all ?s2 s3] s2 by simp
  next
    case False
    then have "init_cpus all cs ?s2 = Inr (r, s')"
      using Cons.prems g by simp
    from Cons.IH [OF this] show ?thesis
      using s2 by simp
  qed
qed

lemma profile_set_other_slots:
  assumes "ttls_mpi_profile_set ops mp0 crt s = (e, s')" "0 < j"
  shows "mpi_profiles s' j = mpi_profiles s j"
proof (cases "has_empty_profile s")
  case False
  then show ?thesis
    using assms by (simp add: ttls_mpi_profile_set_def)
next
  case True
  have nm: "\<not> ttls_mpi_profile_for_cert j (pk crt)"
    using assms(2) by (simp add: for_cert_iff)
  show ?thesis
  proof (cases "profile_set_loop ops (pk crt) [0..<TTLS_MPI_PROFILES_N] mp0 0 s")
    case (Return e1 s1)
    then have "s' = s1"
      using assms(1) True by (simp add: ttls_mpi_profile_set_def)
    then show ?thesis
      using loop_Return [OF _ Return] nm by simp
  next
    case (Next mp1 n1 s1)
    then have "mpi_profiles s' = mpi_profiles s1"
      using assms(1) True by (auto simp: ttls_mpi_profile_set_def split: if_splits)
    then show ?thesis
      using loop_Next [OF _ Next] nm by simp
  qed
qed



section \<open>Initialising a pool\<close>

text \<open>
  On a pool that is not \<^verbatim>\<open>NULL\<close>, \<^verbatim>\<open>ttls_mpi_pool_init\<close> sets the \<^verbatim>\<open>size\<close> field to
  zero, writes no byte outside the 16-byte header of the pool, and allocates nothing: the
  page allocator's state, the registry and the per-CPU table are untouched. It takes no
  capacity and stores none; the capacity of every pool is the page size.
\<close>

lemma pool_init_frame:
  assumes "mp \<noteq> 0"
  shows "\<exists>s'. ttls_mpi_pool_init mp s = Inr s'
           \<and> pool_size (mem s') mp = 0
           \<and> (\<forall>b. 16 \<le> b - mp \<longrightarrow> mem s' b = mem s b)
           \<and> buddy s' = buddy s \<and> freed s' = freed s
           \<and> s' = s\<lparr>mem := mem s'\<rparr>"
  using assms
  by (simp add: ttls_mpi_pool_init_def size_set_size set_size_outside set_curr_outside)

text \<open>
  C9: init sets the pool's allocation offset to zero. On the code it does not: for the
  pool at address 4096, \<^verbatim>\<open>ttls_mpi_pool_init\<close> leaves 4112, the address of the pool's data,
  in \<^verbatim>\<open>curr\<close>, the field that the structure documents as the offset of the free area
  and that \<^verbatim>\<open>MPI_POOL_FREE_PTR\<close> adds to the address of the data. The free pointer of
  the initialised pool is therefore 8224, behind the end of the pool's page at 8192, and a
  first allocation from it, with the descriptor in the pool's data, is told to use the
  bytes at 8224.
\<close>

theorem pool_init_stores_data_address:
  "(case ttls_mpi_pool_init 4096 (boot_state (\<lambda>_. 0) []) of
      Inl e \<Rightarrow> False
    | Inr s' \<Rightarrow>
        pool_curr (mem s') 4096 = 4112 \<and> pool_curr (mem s') 4096 \<noteq> 0
        \<and> pool_size (mem s') 4096 = 0
        \<and> MPI_POOL_FREE_PTR (mem s') 4096 = 8224
        \<and> map_sum id (\<lambda>r. mpi_data 4112 (fst r))
             (ttls_mpi_profile_alloc_mpi (\<lambda>_ _. 4096) 4112 8 s') = Inr 8224)"
  by (simp add: ttls_mpi_pool_init_def boot_state_def curr_set_size curr_set_curr
      size_set_size MPI_POOL_DATA_def sizeof_TlsMpiPool_def MPI_POOL_FREE_PTR_def
      ttls_mpi_profile_alloc_mpi_def PAGE_SIZE_def mpi_data_def Let_def)

section \<open>Allocating from a pool\<close>

text \<open>
  C1, as the spec states it: an allocation either fails with the out-of-pool error, exactly
  when the request does not fit, or succeeds. On the code there is a third outcome: a
  request that fits (100 bytes from an empty pool) whose descriptor does not lie below the
  pool's free pointer stops in \<^verbatim>\<open>BUG_ON\<close>.
\<close>

theorem alloc_mpi_third_outcome_counterexample:
  "\<not> (PAGE_SIZE < sizeof_TlsMpiPool + pool_size (mem (boot_state (\<lambda>_. 0) [])) 4096 + 100)
   \<and> ttls_mpi_profile_alloc_mpi (\<lambda>_ _. 4096) 8192 100 (boot_state (\<lambda>_. 0) []) = Inl BUG"
  by (simp add: ttls_mpi_profile_alloc_mpi_def boot_state_def pool_size_def pool_curr_def
      load64_zero PAGE_SIZE_def sizeof_TlsMpiPool_def MPI_POOL_FREE_PTR_def)

text \<open>
  C1, amended. Let \<^verbatim>\<open>mp\<close> be the pool of the descriptor \<^verbatim>\<open>x\<close>, not \<^verbatim>\<open>NULL\<close>, and let the
  request \<^verbatim>\<open>n\<close> be small enough that header size + \<^verbatim>\<open>size\<close> + \<^verbatim>\<open>n\<close> does not overflow a
  \<^verbatim>\<open>size_t\<close>. Then:
  \<^item> if 16 + \<^verbatim>\<open>size\<close> + \<^verbatim>\<open>n\<close> exceeds the page size, the call returns \<^verbatim>\<open>-ENOMEM\<close> and the
    whole state is unchanged;
  \<^item> otherwise, if \<^verbatim>\<open>x\<close> is not below the free pointer (the address at offset \<^verbatim>\<open>curr\<close> of
    the pool's data), the call stops in \<^verbatim>\<open>BUG_ON\<close>;
  \<^item> otherwise it returns the distance from \<^verbatim>\<open>x\<close> to the free pointer as it was before
    the call, cut to an \<^verbatim>\<open>int\<close>, advances \<^verbatim>\<open>curr\<close> and \<^verbatim>\<open>size\<close> by \<^verbatim>\<open>n\<close>, and changes
    nothing else; when that distance is below 2^31 the result differs from \<^verbatim>\<open>-ENOMEM\<close>
    and, added to \<^verbatim>\<open>x\<close>, is the address at the prior offset.
\<close>

theorem alloc_mpi_outcomes:
  assumes mp: "mpi_profile s x = mp" "mp \<noteq> 0"
    and nowrap: "unat (pool_size (mem s) mp) + unat n + 16 < 2 ^ 64"
  shows
    "(4096 < 16 + unat (pool_size (mem s) mp) + unat n \<longrightarrow>
        ttls_mpi_profile_alloc_mpi mpi_profile x n s = Inr (- ENOMEM, s))
   \<and> (16 + unat (pool_size (mem s) mp) + unat n \<le> 4096
        \<and> MPI_POOL_FREE_PTR (mem s) mp \<le> x \<longrightarrow>
        ttls_mpi_profile_alloc_mpi mpi_profile x n s = Inl BUG)
   \<and> (16 + unat (pool_size (mem s) mp) + unat n \<le> 4096
        \<and> x < MPI_POOL_FREE_PTR (mem s) mp \<longrightarrow>
        (\<exists>s'. ttls_mpi_profile_alloc_mpi mpi_profile x n s =
                 Inr (ucast (MPI_POOL_FREE_PTR (mem s) mp - x), s')
            \<and> pool_curr (mem s') mp = pool_curr (mem s) mp + n
            \<and> pool_size (mem s') mp = pool_size (mem s) mp + n
            \<and> (\<forall>b. 16 \<le> b - mp \<longrightarrow> mem s' b = mem s b)
            \<and> s' = s\<lparr>mem := mem s'\<rparr>)
        \<and> (unat (MPI_POOL_FREE_PTR (mem s) mp - x) < 2 ^ 31 \<longrightarrow>
             (ucast (MPI_POOL_FREE_PTR (mem s) mp - x) :: 32 word) \<noteq> - ENOMEM
             \<and> mpi_data x (ucast (MPI_POOL_FREE_PTR (mem s) mp - x))
                 = MPI_POOL_FREE_PTR (mem s) mp))"
  using mp alloc_check_nat [OF nowrap]
  by (simp add: ttls_mpi_profile_alloc_mpi_def Let_def curr_set_curr curr_set_size
      size_set_size size_set_curr set_size_outside set_curr_outside not_less
      ucast_small_not_ENOMEM mpi_data_distance)

theorem alloc_mpi_outcomes_witness:
  "ttls_mpi_profile_alloc_mpi (\<lambda>_ _. 4096) 2048 5000 (boot_state (\<lambda>_. 0) [])
     = Inr (- ENOMEM, boot_state (\<lambda>_. 0) [])
   \<and> ttls_mpi_profile_alloc_mpi (\<lambda>_ _. 4096) 8192 100 (boot_state (\<lambda>_. 0) []) = Inl BUG
   \<and> (\<exists>s'. ttls_mpi_profile_alloc_mpi (\<lambda>_ _. 4096) 2048 100 (boot_state (\<lambda>_. 0) [])
              = Inr (2064, s')
          \<and> pool_curr (mem s') 4096 = 100 \<and> pool_size (mem s') 4096 = 100)
   \<and> mpi_data 2048 2064 = 4112"
  using
    alloc_mpi_outcomes [where mpi_profile = "\<lambda>_ _. 4096" and s = "boot_state (\<lambda>_. 0) []"
      and x = 2048 and mp = 4096 and n = 5000]
    alloc_mpi_outcomes [where mpi_profile = "\<lambda>_ _. 4096" and s = "boot_state (\<lambda>_. 0) []"
      and x = 8192 and mp = 4096 and n = 100]
    alloc_mpi_outcomes [where mpi_profile = "\<lambda>_ _. 4096" and s = "boot_state (\<lambda>_. 0) []"
      and x = 2048 and mp = 4096 and n = 100]
  by (auto simp: boot_state_def pool_size_def pool_curr_def load64_zero MPI_POOL_FREE_PTR_def
      sizeof_TlsMpiPool_def)

section \<open>Runs of allocations\<close>

lemma alloc_step:
  assumes f: "f s x = mp" "mp \<noteq> 0"
    and top: "unat mp + 4096 < 2 ^ 64"
    and inv: "pool_curr (mem s) mp = of_nat k" "pool_size (mem s) mp = of_nat k"
    and fit: "k + unat n \<le> 4080"
    and x: "unat x < unat mp + 16 + k" "unat mp + 16 + k - unat x < 2 ^ 31"
  shows "\<exists>r s'. ttls_mpi_profile_alloc_mpi f x n s = Inr (r, s')
           \<and> r \<noteq> - ENOMEM \<and> mpi_data x r = mp + 16 + of_nat k
           \<and> pool_curr (mem s') mp = of_nat (k + unat n)
           \<and> pool_size (mem s') mp = of_nat (k + unat n)
           \<and> g_tmp_mpool s' = g_tmp_mpool s"
proof -
  have k: "unat (of_nat k :: 64 word) = k"
    using fit by (simp add: unat_of_nat)
  have chk: "\<not> (sizeof_TlsMpiPool + (of_nat k :: 64 word) + n > PAGE_SIZE)"
    using fit k by (subst alloc_check_nat) simp_all
  have p: "unat (mp + 16 + of_nat k :: 64 word) = unat mp + 16 + k"
    using top fit k by (simp add: unat_word_ariths)
  have lt: "x < mp + 16 + of_nat k"
    using x p by (simp add: word_less_nat_alt)
  then have "x \<le> mp + 16 + of_nat k"
    by simp
  then have d: "unat (mp + 16 + of_nat k - x) = unat mp + 16 + k - unat x"
    using p by (simp add: unat_sub)
  have n: "(of_nat k :: 64 word) + n = of_nat (k + unat n)"
    by simp
  show ?thesis
    using f chk lt d x(2) n
    by (simp add: ttls_mpi_profile_alloc_mpi_def Let_def inv MPI_POOL_FREE_PTR_def
        sizeof_TlsMpiPool_def curr_set_curr curr_set_size size_set_size size_set_curr
        not_le ucast_small_not_ENOMEM mpi_data_distance del: of_nat_add)
qed

lemma tmp_alloc_mpi:
  "ttls_mpi_profile_alloc_mpi f x n s = Inr (r, s') \<Longrightarrow> g_tmp_mpool s' = g_tmp_mpool s"
  by (auto simp: ttls_mpi_profile_alloc_mpi_def Let_def split: if_splits)

lemma on_pool_mpi_pool:
  "g_tmp_mpool s cpu = mp \<Longrightarrow>
     (\<And>x n. (x, n) \<in> set reqs \<Longrightarrow> sp < x \<and> x < sp + 2 * PAGE_SIZE) \<Longrightarrow>
     on_pool (mpi_pool sp cpu) mp reqs s"
proof (induction reqs arbitrary: s)
  case Nil
  then show ?case by simp
next
  case (Cons a reqs)
  obtain x n where a: "a = (x, n)" by (cases a)
  have w: "sp < x \<and> x < sp + 2 * PAGE_SIZE"
    using Cons.prems(2) [of x n] a by simp
  have here: "mpi_pool sp cpu s x = mp"
    using w Cons.prems(1) by (simp add: mpi_pool_def)
  have rest: "on_pool (mpi_pool sp cpu) mp reqs s'"
    if "ttls_mpi_profile_alloc_mpi (mpi_pool sp cpu) x n s = Inr (r, s')" for r s'
  proof (rule Cons.IH)
    show "g_tmp_mpool s' cpu = mp"
      using tmp_alloc_mpi [OF that] Cons.prems(1) by simp
    show "sp < y \<and> y < sp + 2 * PAGE_SIZE" if "(y, k) \<in> set reqs" for y k
      using Cons.prems(2) [of y k] that by simp
  qed
  show ?case
    using a here rest by (auto split: sum.splits)
qed

lemma alloc_calls_placed:
  assumes "mp \<noteq> 0" "unat mp + 4096 < 2 ^ 64"
  shows "on_pool f mp reqs s \<Longrightarrow>
    pool_curr (mem s) mp = of_nat k \<Longrightarrow> pool_size (mem s) mp = of_nat k \<Longrightarrow>
    k + sum_list (map (\<lambda>r. unat (snd r)) reqs) \<le> 4080 \<Longrightarrow> below_free_ptr mp k reqs \<Longrightarrow>
    \<exists>rets s'. alloc_calls f reqs s = Inr (rets, s') \<and> placed mp k reqs rets"
proof (induction reqs arbitrary: s k)
  case Nil
  then show ?case by simp
next
  case (Cons a reqs)
  obtain x n where a: "a = (x, n)" by (cases a)
  from Cons.prems a have fit: "k + unat n \<le> 4080"
    and rest: "(k + unat n) + sum_list (map (\<lambda>r. unat (snd r)) reqs) \<le> 4080"
    and x: "unat x < unat mp + 16 + k" "unat mp + 16 + k - unat x < 2 ^ 31"
    and b: "below_free_ptr mp (k + unat n) reqs"
    and fx: "f s x = mp"
    and later: "case ttls_mpi_profile_alloc_mpi f x n s of
                  Inl e \<Rightarrow> True | Inr (r, s') \<Rightarrow> on_pool f mp reqs s'"
    by simp_all
  from alloc_step [where f = f and s = s and x = x, OF fx assms(1) assms(2) Cons.prems(2) Cons.prems(3) fit x]
  obtain r s' where r: "ttls_mpi_profile_alloc_mpi f x n s = Inr (r, s')"
    "r \<noteq> - ENOMEM" "mpi_data x r = mp + 16 + of_nat k"
    "pool_curr (mem s') mp = of_nat (k + unat n)" "pool_size (mem s') mp = of_nat (k + unat n)"
    by blast
  have op: "on_pool f mp reqs s'"
    using later r(1) by simp
  from Cons.IH [OF op r(4) r(5) rest b]
  obtain rets s'' where "alloc_calls f reqs s' = Inr (rets, s'')" "placed mp (k + unat n) reqs rets"
    by blast
  then show ?case
    using a r by simp
qed

lemma placed_nth:
  "placed mp k reqs rets \<Longrightarrow>
     length rets = length reqs
     \<and> (\<forall>i<length reqs. rets ! i \<noteq> - ENOMEM
          \<and> mpi_data (fst (reqs ! i)) (rets ! i)
               = mp + 16 + of_nat (k + sum_list (map (\<lambda>r. unat (snd r)) (take i reqs))))"
proof (induction reqs arbitrary: k rets)
  case Nil
  then show ?case by simp
next
  case (Cons a reqs)
  obtain x n where a: "a = (x, n)" by (cases a)
  from Cons.prems a obtain r rets' where rets: "rets = r # rets'"
    and r: "r \<noteq> - ENOMEM" "mpi_data x r = mp + 16 + of_nat k"
    and p: "placed mp (k + unat n) reqs rets'"
    by (auto split: list.splits)
  from Cons.IH [OF p] have ih: "length rets' = length reqs"
    "\<And>i. i < length reqs \<Longrightarrow> rets' ! i \<noteq> - ENOMEM
          \<and> mpi_data (fst (reqs ! i)) (rets' ! i)
               = mp + 16 + of_nat (k + unat n + sum_list (map (\<lambda>r. unat (snd r)) (take i reqs)))"
    by simp_all
  show ?case
  proof (intro conjI allI impI)
    show "length rets = length (a # reqs)" using rets ih(1) by simp
  next
    fix i assume "i < length (a # reqs)"
    then show "rets ! i \<noteq> - ENOMEM"
      using rets r ih(2) by (cases i) simp_all
  next
    fix i assume "i < length (a # reqs)"
    then show "mpi_data (fst ((a # reqs) ! i)) (rets ! i)
               = mp + 16 + of_nat (k + sum_list (map (\<lambda>r. unat (snd r)) (take i (a # reqs))))"
      using rets r a ih(2) by (cases i) (simp_all add: add.assoc del: of_nat_add)
  qed
qed


lemma sum_take_le: "sum_list (take i (ns :: nat list)) \<le> sum_list ns"
proof -
  have "sum_list ns = sum_list (take i ns) + sum_list (drop i ns)"
    by (metis append_take_drop_id sum_list_append)
  then show ?thesis by simp
qed

lemma sum_take_mono: "i \<le> j \<Longrightarrow> sum_list (take i (ns :: nat list)) \<le> sum_list (take j ns)"
  using sum_take_le [of i "take j ns"] by (simp add: min_def)

lemma sum_take_Suc: "i < length ns \<Longrightarrow> sum_list (take i (ns :: nat list)) + ns ! i = sum_list (take (Suc i) ns)"
  by (simp add: take_Suc_conv_app_nth)

lemma mpool_init_cpu0:
  "ttls_mpool_init [0] (boot_state (\<lambda>_. 0) [1048576]) = Inr (0, cpu0_ready)"
  by (simp add: ttls_mpool_init_def get_free_pages_def boot_state_def bzero_zero_mem
      cpu0_ready_def)

text \<open>
  C7, as the spec states it: whenever the requested sizes add up to at most the capacity,
  every returned address lies within [base, base + capacity). On the code this fails for a
  request of size zero on a full pool: after 4080 bytes (all the data bytes of the page)
  the next request of 0 bytes succeeds and its address is base + capacity, the first
  address behind the page, whether the base is taken as the pool's data or as the page.
\<close>

theorem alloc_calls_full_pool_counterexample:
  "map_sum id fst (alloc_calls (\<lambda>_ _. 4096) [(2048, 4080), (2048, 0)] (boot_state (\<lambda>_. 0) []))
     = Inr [2064, 6144]
   \<and> mpi_data 2048 6144 = MPI_POOL_DATA 4096 + 4080
   \<and> mpi_data 2048 6144 = 4096 + PAGE_SIZE"
  by (simp add: ttls_mpi_profile_alloc_mpi_def boot_state_def Let_def
      curr_set_curr curr_set_size size_set_size size_set_curr
      pool_size_def [of "\<lambda>_. 0"] pool_curr_def [of "\<lambda>_. 0"] load64_zero
      PAGE_SIZE_def sizeof_TlsMpiPool_def MPI_POOL_FREE_PTR_def MPI_POOL_DATA_def mpi_data_def)

text \<open>
  C7, amended. Take a pool \<^verbatim>\<open>mp\<close> with nothing in use (\<^verbatim>\<open>curr\<close> and \<^verbatim>\<open>size\<close> zero, as in a
  page fresh from the allocator), whose page does not reach the top of the address space,
  and a run of requests on it (each call finds the pool \<^verbatim>\<open>mp\<close> for its descriptor,
  whatever the resolver is) whose sizes add up to at most 4080, the page size less the
  16-byte header, each descriptor lying below the free pointer at the time of its call.
  Then every call succeeds; every allocation starts at or after the pool's data and ends
  at or before the end of the page; and an earlier allocation ends at or before the start
  of every later one, so the occupied ranges never overlap.
\<close>

theorem alloc_calls_in_bounds_disjoint:
  assumes f: "on_pool f mp reqs s" and mp: "mp \<noteq> 0" "unat mp + 4096 < 2 ^ 64"
    and fresh: "pool_curr (mem s) mp = 0" "pool_size (mem s) mp = 0"
    and total: "sum_list (map (\<lambda>r. unat (snd r)) reqs) \<le> 4080"
    and below: "below_free_ptr mp 0 reqs"
  shows "\<exists>rets s'. alloc_calls f reqs s = Inr (rets, s') \<and> length rets = length reqs
     \<and> (\<forall>i<length reqs. rets ! i \<noteq> - ENOMEM
          \<and> unat (MPI_POOL_DATA mp) \<le> unat (mpi_data (fst (reqs ! i)) (rets ! i))
          \<and> unat (mpi_data (fst (reqs ! i)) (rets ! i)) + unat (snd (reqs ! i))
               \<le> unat (MPI_POOL_DATA mp) + 4080)
     \<and> (\<forall>i j. i < j \<and> j < length reqs \<longrightarrow>
          unat (mpi_data (fst (reqs ! i)) (rets ! i)) + unat (snd (reqs ! i))
            \<le> unat (mpi_data (fst (reqs ! j)) (rets ! j)))"
proof -
  let ?ns = "map (\<lambda>r. unat (snd r)) reqs"
  from alloc_calls_placed [where f = f and k = 0 and s = s and reqs = reqs, OF mp f] fresh total below
  obtain rets s' where run: "alloc_calls f reqs s = Inr (rets, s')" and pl: "placed mp 0 reqs rets"
    by auto
  from placed_nth [OF pl] have len: "length rets = length reqs"
    and nth: "\<And>i. i < length reqs \<Longrightarrow> rets ! i \<noteq> - ENOMEM
          \<and> mpi_data (fst (reqs ! i)) (rets ! i) = mp + 16 + of_nat (sum_list (take i ?ns))"
    by (simp_all add: take_map)
  have data: "unat (MPI_POOL_DATA mp) = unat mp + 16"
    using mp by (simp add: MPI_POOL_DATA_def sizeof_TlsMpiPool_def unat_word_ariths)
  have pos: "unat (mpi_data (fst (reqs ! i)) (rets ! i)) = unat mp + 16 + sum_list (take i ?ns)"
    if "i < length reqs" for i
  proof -
    have "sum_list (take i ?ns) \<le> 4080"
      using sum_take_le [of i ?ns] total by linarith
    then show ?thesis
      using nth [OF that] mp by (simp add: unat_word_ariths unat_of_nat)
  qed
  have nxt: "sum_list (take i ?ns) + unat (snd (reqs ! i)) = sum_list (take (Suc i) ?ns)"
    if "i < length reqs" for i
    using sum_take_Suc [of i ?ns] that by simp
  show ?thesis
  proof (intro exI [of _ rets] exI [of _ s'] conjI allI impI)
    show "alloc_calls f reqs s = Inr (rets, s')" by (rule run)
    show "length rets = length reqs" by (rule len)
  next
    fix i assume "i < length reqs"
    then show "rets ! i \<noteq> - ENOMEM" using nth by blast
  next
    fix i assume "i < length reqs"
    then show "unat (MPI_POOL_DATA mp) \<le> unat (mpi_data (fst (reqs ! i)) (rets ! i))"
      using pos data by simp
  next
    fix i assume i: "i < length reqs"
    have "sum_list (take (Suc i) ?ns) \<le> 4080"
      using sum_take_le [of "Suc i" ?ns] total by linarith
    then show "unat (mpi_data (fst (reqs ! i)) (rets ! i)) + unat (snd (reqs ! i))
               \<le> unat (MPI_POOL_DATA mp) + 4080"
      using pos [OF i] nxt [OF i] data by linarith
  next
    fix i j assume ij: "i < j \<and> j < length reqs"
    then have i: "i < length reqs" and j: "j < length reqs" by simp_all
    have "sum_list (take (Suc i) ?ns) \<le> sum_list (take j ?ns)"
      using ij by (intro sum_take_mono) simp
    then show "unat (mpi_data (fst (reqs ! i)) (rets ! i)) + unat (snd (reqs ! i))
            \<le> unat (mpi_data (fst (reqs ! j)) (rets ! j))"
      using pos [OF i] pos [OF j] nxt [OF i] by linarith
  qed
qed

theorem alloc_calls_in_bounds_disjoint_witness:
  "\<exists>rets s'. alloc_calls (mpi_pool 4096 0) [(4196, 100), (4196, 1000)] cpu0_ready
        = Inr (rets, s')
     \<and> length rets = 2
     \<and> unat (MPI_POOL_DATA 1048576) \<le> unat (mpi_data 4196 (rets ! 0))
     \<and> unat (mpi_data 4196 (rets ! 0)) + 100 \<le> unat (mpi_data 4196 (rets ! 1))
     \<and> unat (mpi_data 4196 (rets ! 1)) + 1000 \<le> unat (MPI_POOL_DATA 1048576) + 4080"
proof -
  let ?reqs = "[(4196, 100), (4196, 1000)] :: (addr \<times> 64 word) list"
  have pool: "on_pool (mpi_pool 4096 0) 1048576 ?reqs cpu0_ready"
    by (rule on_pool_mpi_pool) (auto simp: cpu0_ready_def PAGE_SIZE_def)
  have "\<exists>rets s'. alloc_calls (mpi_pool 4096 0) ?reqs cpu0_ready = Inr (rets, s')
     \<and> length rets = length ?reqs
     \<and> (\<forall>i<length ?reqs. rets ! i \<noteq> - ENOMEM
          \<and> unat (MPI_POOL_DATA 1048576) \<le> unat (mpi_data (fst (?reqs ! i)) (rets ! i))
          \<and> unat (mpi_data (fst (?reqs ! i)) (rets ! i)) + unat (snd (?reqs ! i))
               \<le> unat (MPI_POOL_DATA 1048576) + 4080)
     \<and> (\<forall>i j. i < j \<and> j < length ?reqs \<longrightarrow>
          unat (mpi_data (fst (?reqs ! i)) (rets ! i)) + unat (snd (?reqs ! i))
            \<le> unat (mpi_data (fst (?reqs ! j)) (rets ! j)))"
    by (rule alloc_calls_in_bounds_disjoint [OF pool])
      (simp_all add: cpu0_ready_def pool_curr_def pool_size_def load64_zero)
  then obtain rets s' where
    r: "alloc_calls (mpi_pool 4096 0) ?reqs cpu0_ready = Inr (rets, s')"
      "length rets = length ?reqs"
    and b: "\<forall>i<length ?reqs.
          unat (MPI_POOL_DATA 1048576) \<le> unat (mpi_data (fst (?reqs ! i)) (rets ! i))
          \<and> unat (mpi_data (fst (?reqs ! i)) (rets ! i)) + unat (snd (?reqs ! i))
               \<le> unat (MPI_POOL_DATA 1048576) + 4080"
    and d: "\<forall>i j. i < j \<and> j < length ?reqs \<longrightarrow>
          unat (mpi_data (fst (?reqs ! i)) (rets ! i)) + unat (snd (?reqs ! i))
            \<le> unat (mpi_data (fst (?reqs ! j)) (rets ! j))"
    by blast
  show ?thesis
    using r b [rule_format, of 0] b [rule_format, of 1] d [rule_format, of 0 1] by auto
qed

section \<open>Finding the pool of an address\<close>

lemma mpi_pool_on_stack:
  "sp < a \<Longrightarrow> a < sp + 2 * PAGE_SIZE \<Longrightarrow> mpi_pool sp cpu s a = g_tmp_mpool s cpu"
  by (simp add: mpi_pool_def)

lemma mpi_pool_off_stack:
  "\<not> (sp < a \<and> a < sp + 2 * PAGE_SIZE) \<Longrightarrow> mpi_pool sp cpu s a = a AND 4095"
  by (auto simp: mpi_pool_def PAGE_MASK_def PAGE_SIZE_def)

text \<open>
  \<^verbatim>\<open>__mpi_pool\<close> masks with the complement of \<^verbatim>\<open>PAGE_MASK\<close> and \<^verbatim>\<open>ttls_mpi_free_mpool\<close>
  with \<^verbatim>\<open>PAGE_MASK\<close> itself. Whatever value the macro has, the two cannot both yield the
  start of the page of every address.
\<close>

lemma no_mask_fits_both:
  "\<not> ((\<forall>a :: addr. a AND NOT M = a AND NOT (PAGE_SIZE - 1))
      \<and> (\<forall>a :: addr. a AND M = a AND NOT (PAGE_SIZE - 1)))"
proof
  assume h: "(\<forall>a :: addr. a AND NOT M = a AND NOT (PAGE_SIZE - 1))
      \<and> (\<forall>a :: addr. a AND M = a AND NOT (PAGE_SIZE - 1))"
  then have "(- 1) AND NOT M = (- 1 :: addr) AND NOT (PAGE_SIZE - 1)"
    and "(- 1) AND M = (- 1 :: addr) AND NOT (PAGE_SIZE - 1)"
    by blast+
  then have "NOT M = NOT (PAGE_SIZE - 1)" and "M = NOT (PAGE_SIZE - 1)"
    by simp_all
  then show False
    by (simp add: PAGE_SIZE_def)
qed

text \<open>
  C2: for an address outside the stack window the result is the address masked down to
  the start of its page. On the code it is the offset of the address within its page:
  for the address 74565 in the page at 73728 \<^verbatim>\<open>__mpi_pool\<close> returns 837, while
  \<^verbatim>\<open>ttls_mpi_free_mpool\<close> finds the page 73728 for the same address.
\<close>

theorem mpi_pool_returns_page_offset:
  "mpi_pool 2147352576 0 (boot_state (\<lambda>_. 0) []) 74565 = 837
   \<and> 74565 AND PAGE_MASK = 73728
   \<and> freed (ttls_mpi_free_mpool 74565 (boot_state (\<lambda>_. 0) [])) = [73728]"
  by (simp add: mpi_pool_def PAGE_MASK_def PAGE_SIZE_def ttls_mpi_free_mpool_def free_pages_def
      boot_state_def)

section \<open>Resetting a pool\<close>

text \<open>
  \<^verbatim>\<open>ttls_mpi_cleanup_ctx\<close> on a pool within its bounds zeroes the consumed bytes of the
  data, sets \<^verbatim>\<open>curr\<close> to zero and leaves everything else, \<^verbatim>\<open>size\<close> included, as it was.
\<close>

lemma alloc_mpi_full:
  assumes "f s x = mp" "mp \<noteq> 0"
    and "unat (pool_size (mem s) mp) + unat n + 16 < 2 ^ 64"
    and "4096 < 16 + unat (pool_size (mem s) mp) + unat n"
  shows "ttls_mpi_profile_alloc_mpi f x n s = Inr (- ENOMEM, s)"
  using assms(1,2,4) alloc_check_nat [OF assms(3)]
  by (simp add: ttls_mpi_profile_alloc_mpi_def Let_def)

lemma cleanup_ctx_effect:
  assumes mp: "g_tmp_mpool s cpu = mp" "mp \<noteq> 0"
    and ok: "\<not> mem_alloc < MPI_POOL_DATA mp" "pool_curr (mem s) mp \<le> pool_size (mem s) mp"
    and small: "unat (pool_curr (mem s) mp) \<le> 4080"
  shows "\<exists>s'. ttls_mpi_cleanup_ctx mem_alloc cpu s = Inr s'
      \<and> pool_curr (mem s') mp = 0
      \<and> pool_size (mem s') mp = pool_size (mem s) mp
      \<and> (\<forall>b. b - MPI_POOL_DATA mp < pool_curr (mem s) mp \<longrightarrow> mem s' b = 0)
      \<and> (\<forall>b. 16 \<le> b - mp \<and> \<not> b - MPI_POOL_DATA mp < pool_curr (mem s) mp \<longrightarrow>
            mem s' b = mem s b)
      \<and> g_tmp_mpool s' = g_tmp_mpool s"
proof -
  let ?c = "pool_curr (mem s) mp"
  let ?m1 = "bzero_fast (mem s) (MPI_POOL_DATA mp) ?c"
  let ?s' = "s\<lparr>mem := set_curr ?m1 mp 0\<rparr>"
  have r: "ttls_mpi_cleanup_ctx mem_alloc cpu s = Inr ?s'"
    using mp ok by (simp add: ttls_mpi_cleanup_ctx_def Let_def not_less)
  have z: "mem ?s' b = 0" if "b - MPI_POOL_DATA mp < ?c" for b
    using that data_outside_header [OF that small]
    by (simp add: set_curr_outside bzero_fast_def memset_def)
  have k: "mem ?s' b = mem s b" if "16 \<le> b - mp" "\<not> b - MPI_POOL_DATA mp < ?c" for b
    using that by (simp add: set_curr_outside bzero_fast_def memset_def)
  show ?thesis
    using r z k by (simp add: curr_set_curr size_set_curr size_bzero_data [OF small])
qed

text \<open>
  C5: after a reset, a request within the capacity is placed where the pool's first
  allocation was. On the code the request can fail instead, because the reset leaves
  \<^verbatim>\<open>size\<close>, which the bound check reads, as it was. The run is the spec's own: on the
  pool of CPU 0, fresh from \<^verbatim>\<open>ttls_mpool_init\<close>, 100 and 1000 bytes are allocated, a
  request of 3100 fails, the pool is reset (\<^verbatim>\<open>curr\<close> is 0, \<^verbatim>\<open>size\<close> still 1100), and
  the request of 4000 bytes fails with \<^verbatim>\<open>-ENOMEM\<close>.
\<close>

theorem reset_then_allocate_fails:
  "\<exists>sA r1 s1 r2 s2 s3.
      ttls_mpool_init [0] (boot_state (\<lambda>_. 0) [1048576]) = Inr (0, sA)
    \<and> ttls_mpi_profile_alloc_mpi (mpi_pool 4096 0) 4196 100 sA = Inr (r1, s1)
    \<and> r1 \<noteq> - ENOMEM \<and> mpi_data 4196 r1 = MPI_POOL_DATA 1048576
    \<and> ttls_mpi_profile_alloc_mpi (mpi_pool 4096 0) 4196 1000 s1 = Inr (r2, s2)
    \<and> r2 \<noteq> - ENOMEM
    \<and> ttls_mpi_profile_alloc_mpi (mpi_pool 4096 0) 4196 3100 s2 = Inr (- ENOMEM, s2)
    \<and> ttls_mpi_cleanup_ctx (MPI_POOL_DATA 1048576) 0 s2 = Inr s3
    \<and> pool_curr (mem s3) 1048576 = 0 \<and> pool_size (mem s3) 1048576 = 1100
    \<and> ttls_mpi_profile_alloc_mpi (mpi_pool 4096 0) 4196 4000 s3 = Inr (- ENOMEM, s3)"
proof -
  let ?f = "mpi_pool 4096 0"
  let ?mp = "1048576 :: addr"
  let ?sA = "\<lparr>mem = (\<lambda>_. 0), mpi_profiles = (\<lambda>_. 0), g_tmp_mpool = (\<lambda>_. 0)(0 := ?mp),
      has_empty_profile = True, buddy = [], freed = []\<rparr>"
  have f: "?f s 4196 = g_tmp_mpool s 0" for s
    by (rule mpi_pool_on_stack) (simp_all add: PAGE_SIZE_def)
  have a: "ttls_mpool_init [0] (boot_state (\<lambda>_. 0) [1048576]) = Inr (0, ?sA)"
    by (simp add: ttls_mpool_init_def get_free_pages_def boot_state_def bzero_zero_mem)
  have "\<exists>r s'. ttls_mpi_profile_alloc_mpi ?f 4196 100 ?sA = Inr (r, s')
           \<and> r \<noteq> - ENOMEM \<and> mpi_data 4196 r = ?mp + 16 + of_nat 0
           \<and> pool_curr (mem s') ?mp = of_nat (0 + unat (100 :: 64 word))
           \<and> pool_size (mem s') ?mp = of_nat (0 + unat (100 :: 64 word))
           \<and> g_tmp_mpool s' = g_tmp_mpool ?sA"
    by (rule alloc_step) (simp_all add: f pool_curr_def pool_size_def load64_zero)
  then obtain r1 s1 where 1: "ttls_mpi_profile_alloc_mpi ?f 4196 100 ?sA = Inr (r1, s1)"
    "r1 \<noteq> - ENOMEM" "mpi_data 4196 r1 = MPI_POOL_DATA ?mp"
    and c1: "pool_curr (mem s1) ?mp = of_nat 100" "pool_size (mem s1) ?mp = of_nat 100"
    and t1: "g_tmp_mpool s1 0 = ?mp"
    by (auto simp: MPI_POOL_DATA_def sizeof_TlsMpiPool_def)
  have "\<exists>r s'. ttls_mpi_profile_alloc_mpi ?f 4196 1000 s1 = Inr (r, s')
           \<and> r \<noteq> - ENOMEM \<and> mpi_data 4196 r = ?mp + 16 + of_nat 100
           \<and> pool_curr (mem s') ?mp = of_nat (100 + unat (1000 :: 64 word))
           \<and> pool_size (mem s') ?mp = of_nat (100 + unat (1000 :: 64 word))
           \<and> g_tmp_mpool s' = g_tmp_mpool s1"
    by (rule alloc_step) (simp_all add: f t1 c1)
  then obtain r2 s2 where 2: "ttls_mpi_profile_alloc_mpi ?f 4196 1000 s1 = Inr (r2, s2)"
    "r2 \<noteq> - ENOMEM"
    and c2: "pool_curr (mem s2) ?mp = 1100" "pool_size (mem s2) ?mp = 1100"
    and t2: "g_tmp_mpool s2 0 = ?mp"
    using t1 by auto
  have 3: "ttls_mpi_profile_alloc_mpi ?f 4196 3100 s2 = Inr (- ENOMEM, s2)"
    by (rule alloc_mpi_full [where mp = ?mp]) (simp_all add: f t2 c2)
  have "\<exists>s'. ttls_mpi_cleanup_ctx (MPI_POOL_DATA ?mp) 0 s2 = Inr s'
      \<and> pool_curr (mem s') ?mp = 0
      \<and> pool_size (mem s') ?mp = pool_size (mem s2) ?mp
      \<and> (\<forall>b. b - MPI_POOL_DATA ?mp < pool_curr (mem s2) ?mp \<longrightarrow> mem s' b = 0)
      \<and> (\<forall>b. 16 \<le> b - ?mp \<and> \<not> b - MPI_POOL_DATA ?mp < pool_curr (mem s2) ?mp \<longrightarrow>
            mem s' b = mem s2 b)
      \<and> g_tmp_mpool s' = g_tmp_mpool s2"
    by (rule cleanup_ctx_effect) (simp_all add: t2 c2)
  then obtain s3 where 4: "ttls_mpi_cleanup_ctx (MPI_POOL_DATA ?mp) 0 s2 = Inr s3"
    and c3: "pool_curr (mem s3) ?mp = 0" "pool_size (mem s3) ?mp = 1100"
    and t3: "g_tmp_mpool s3 0 = ?mp"
    using t2 c2 by auto
  have 5: "ttls_mpi_profile_alloc_mpi ?f 4196 4000 s3 = Inr (- ENOMEM, s3)"
    by (rule alloc_mpi_full [where mp = ?mp]) (simp_all add: f t3 c3)
  show ?thesis
    using a 1 2 3 4 c3 5 by blast
qed

section \<open>Releasing pools\<close>

text \<open>
  \<^verbatim>\<open>ttls_mpi_free_mpool\<close> zeroes every byte of the page of its argument and gives that
  page back.
\<close>

lemma free_mpool_zeroes_page:
  "b AND PAGE_MASK = ctx AND PAGE_MASK \<Longrightarrow> mem (ttls_mpi_free_mpool ctx s) b = 0"
  using page_offset_small [of b]
  by (auto simp: ttls_mpi_free_mpool_def Let_def free_pages_def bzero_fast_def memset_def
      MCTX_ORDER_def)

lemma free_mpool_releases:
  "ctx AND PAGE_MASK \<noteq> 0 \<Longrightarrow>
     freed (ttls_mpi_free_mpool ctx s) = freed s @ [ctx AND PAGE_MASK]"
  by (simp add: ttls_mpi_free_mpool_def Let_def free_pages_def)

text \<open>
  C3: destroy and teardown leave every released region zeroed. \<^verbatim>\<open>ttls_mpi_free_mpool\<close>
  does (the two lemmas above); \<^verbatim>\<open>ttls_mpool_exit\<close> does not. After the subsystem is
  started on one CPU and a certificate with an elliptic-curve key is set, the profile's
  page 73728 holds a byte of key material at 73744; \<^verbatim>\<open>ttls_mpool_exit\<close> gives the page
  back with that byte still in it.
\<close>

theorem mpool_exit_keeps_profile_bytes:
  "\<exists>sA sB sC.
      ttls_mpool_init [0] (boot_state (\<lambda>_. 0) [8192, 73728]) = Inr (0, sA)
    \<and> ttls_mpi_profile_set demo_ops 0 ec_crt sA = (0, sB)
    \<and> mpi_profiles sB TTLS_MPI_PROFILE_ECDH = 73728 \<and> mem sB 73744 = 170
    \<and> ttls_mpool_exit [0] sB = Inr sC
    \<and> freed sC = [73728, 8192] \<and> mem sC 73744 = 170"
proof -
  let ?sA = "\<lparr>mem = (\<lambda>_. 0), mpi_profiles = (\<lambda>_. 0), g_tmp_mpool = (\<lambda>_. 0)(0 := 8192),
      has_empty_profile = True, buddy = [73728], freed = []\<rparr>"
  let ?sB = "\<lparr>mem = (\<lambda>_. 0)(73744 := 170), mpi_profiles = (\<lambda>_. 0)(0 := 73728),
      g_tmp_mpool = (\<lambda>_. 0)(0 := 8192), has_empty_profile = True, buddy = [], freed = []\<rparr>"
  let ?sC = "?sB\<lparr>freed := [73728, 8192]\<rparr>"
  have a: "ttls_mpool_init [0] (boot_state (\<lambda>_. 0) [8192, 73728]) = Inr (0, ?sA)"
    by (simp add: ttls_mpool_init_def get_free_pages_def boot_state_def bzero_zero_mem)
  have c: "ttls_mpi_profile_create_ec demo_ops (pk ec_crt) ?sA =
      (73728, ?sA\<lparr>mem := (bzero_fast (mem ?sA) 73728 PAGE_SIZE)(73728 + 16 := 170), buddy := []\<rparr>)"
    by (rule demo_create_ec_state) simp_all
  have b: "ttls_mpi_profile_set demo_ops 0 ec_crt ?sA = (0, ?sB)"
    using profile_set_creates [OF _ _ _ c]
    by (auto simp: ec_crt_def bzero_zero_mem)
  have cur: "pool_curr ((\<lambda>_. 0)(73744 := 170)) 8192 = 0"
    by (simp add: pool_curr_def load64_def cat8_def)
  have e: "ttls_mpool_exit [0] ?sB = Inr ?sC"
    by (simp add: ttls_mpool_exit_def upt_profiles free_pages_def cur memset_none)
  show ?thesis
    using a b e by (simp add: TTLS_MPI_PROFILE_ECDH_def)
qed

section \<open>Starting the subsystem\<close>

lemma tmp_free_pages: "g_tmp_mpool (free_pages a order s) = g_tmp_mpool s"
  by (simp add: free_pages_def)

lemma tmp_exit_profiles: "g_tmp_mpool (exit_profiles is s) = g_tmp_mpool s"
  by (induction "is" arbitrary: s) (simp_all add: tmp_free_pages)

lemma exit_cpus_null:
  "c \<in> set cs \<Longrightarrow> g_tmp_mpool s c = 0 \<Longrightarrow> exit_cpus cs s = Inl NULL_DEREF"
proof (induction cs arbitrary: s)
  case Nil
  then show ?case by simp
next
  case (Cons a cs)
  show ?case
  proof (cases "g_tmp_mpool s a = 0")
    case True
    then show ?thesis by simp
  next
    case False
    then have "c \<in> set cs"
      using Cons.prems by auto
    then show ?thesis
      using False Cons.prems(2) by (simp add: Let_def Cons.IH tmp_free_pages)
  qed
qed

lemma mpool_exit_null:
  "c \<in> set cpus \<Longrightarrow> g_tmp_mpool s c = 0 \<Longrightarrow> ttls_mpool_exit cpus s = Inl NULL_DEREF"
  by (simp add: ttls_mpool_exit_def exit_cpus_null tmp_exit_profiles)

lemma init_cpus_alloc_fails:
  assumes "c \<in> set all" "fst (get_free_pages MCTX_ORDER s) = 0"
  shows "init_cpus all (c # cs) s = Inl NULL_DEREF"
proof -
  obtain p s1 where g: "get_free_pages MCTX_ORDER s = (p, s1)"
    by (cases "get_free_pages MCTX_ORDER s")
  then have p: "p = 0" using assms(2) by simp
  have "ttls_mpool_exit all (s1\<lparr>g_tmp_mpool := (g_tmp_mpool s1)(c := 0)\<rparr>) = Inl NULL_DEREF"
    by (rule mpool_exit_null [OF assms(1)]) simp
  then show ?thesis
    using g p by simp
qed

lemma init_cpus_alloc_ok:
  "get_free_pages MCTX_ORDER s = (p, s1) \<Longrightarrow> p \<noteq> 0 \<Longrightarrow>
     init_cpus all (c # cs) s = init_cpus all cs (s1\<lparr>g_tmp_mpool := (g_tmp_mpool s1)(c := p)\<rparr>)"
  by simp

text \<open>
  C10: when the page for a CPU cannot be allocated, \<^verbatim>\<open>ttls_mpool_init\<close> releases what it
  allocated and returns \<^verbatim>\<open>-ENOMEM\<close>. On the code it does not return: with two CPUs and
  one page to give, the allocation for CPU 1 fails, the cleanup \<^verbatim>\<open>ttls_mpool_exit\<close> reads
  \<^verbatim>\<open>curr\<close> through the \<^verbatim>\<open>NULL\<close> slot of CPU 1, and the call faults.
\<close>

theorem mpool_init_failure_faults:
  "ttls_mpool_init [0, 1] (boot_state (\<lambda>_. 0) [8192]) = Inl NULL_DEREF"
proof -
  let ?s = "boot_state (\<lambda>_. 0) [8192]"
  obtain s1 where g: "get_free_pages MCTX_ORDER ?s = (8192, s1)" and b: "buddy s1 = []"
    by (simp add: get_free_pages_def boot_state_def)
  have "init_cpus [0, 1] [0, 1] ?s
          = init_cpus [0, 1] [1] (s1\<lparr>g_tmp_mpool := (g_tmp_mpool s1)(0 := 8192)\<rparr>)"
    by (rule init_cpus_alloc_ok [OF g]) simp
  also have "\<dots> = Inl NULL_DEREF"
    by (rule init_cpus_alloc_fails) (simp_all add: get_free_pages_def b)
  finally show ?thesis
    by (simp add: ttls_mpool_init_def)
qed

section \<open>The all-profiles-filled flag\<close>

text \<open>
  \<^verbatim>\<open>has_empty_profile\<close> false means "all filled". No step of the subsystem takes the flag
  back from "all filled" to "not all filled", and a step that sets it ends in a state
  where none of the \<^verbatim>\<open>__TTLS_MPI_PROFILES_N\<close> slots is \<^verbatim>\<open>NULL\<close>.
\<close>

lemma flag_step:
  assumes "mpool_step s s'"
  shows "(\<not> has_empty_profile s \<longrightarrow> \<not> has_empty_profile s')
     \<and> (has_empty_profile s \<and> \<not> has_empty_profile s' \<longrightarrow>
          (\<forall>i<TTLS_MPI_PROFILES_N. mpi_profiles s' i \<noteq> 0))"
  using assms
proof cases
  case (step_pool_init mp)
  from registry_pool_init [OF this] show ?thesis by (simp add: registry_of_def)
next
  case (step_alloc_mpi f x n r)
  from registry_alloc_mpi [OF this] show ?thesis by (simp add: registry_of_def)
next
  case (step_cleanup_ctx mem_alloc cpu)
  from registry_cleanup_ctx [OF this] show ?thesis by (simp add: registry_of_def)
next
  case (step_free_mpool ctx)
  then show ?thesis
    using registry_free_mpool [of ctx s] by (simp add: registry_of_def)
next
  case (step_pool_alloc n p)
  from registry_pool_alloc [OF this] show ?thesis by (simp add: registry_of_def)
next
  case (step_profile_set ops mp_uninit crt e)
  from profile_set_flag [OF this] show ?thesis .
next
  case (step_profile_alloc uses_ecdh uses_ecdhe tls e)
  from registry_profile_alloc [OF this] show ?thesis by (simp add: registry_of_def)
next
  case (step_mpool_exit cpus)
  from registry_mpool_exit [OF this] show ?thesis by (simp add: registry_of_def)
next
  case (step_mpool_init cpus e)
  then have "init_cpus cpus cpus s = Inr (e, s')"
    by (simp add: ttls_mpool_init_def)
  from registry_init_cpus [OF this] show ?thesis by (simp add: registry_of_def)
qed

text \<open>
  As long as the slots behind the first are empty, as they are after boot, no step fills
  one of them or sets the flag: only \<^verbatim>\<open>ttls_mpi_profile_set\<close> writes the registry, and
  \<^verbatim>\<open>ttls_mpi_profile_for_cert\<close> lets it write the first slot only.
\<close>

lemma step_other_slots:
  assumes "mpool_step s s'" "0 < j"
  shows "mpi_profiles s' j = mpi_profiles s j"
  using assms(1)
proof cases
  case (step_pool_init mp)
  from registry_pool_init [OF this] show ?thesis by (simp add: registry_of_def)
next
  case (step_alloc_mpi f x n r)
  from registry_alloc_mpi [OF this] show ?thesis by (simp add: registry_of_def)
next
  case (step_cleanup_ctx mem_alloc cpu)
  from registry_cleanup_ctx [OF this] show ?thesis by (simp add: registry_of_def)
next
  case (step_free_mpool ctx)
  then show ?thesis
    using registry_free_mpool [of ctx s] by (simp add: registry_of_def)
next
  case (step_pool_alloc n p)
  from registry_pool_alloc [OF this] show ?thesis by (simp add: registry_of_def)
next
  case (step_profile_set ops mp_uninit crt e)
  from profile_set_other_slots [OF this assms(2)] show ?thesis .
next
  case (step_profile_alloc uses_ecdh uses_ecdhe tls e)
  from registry_profile_alloc [OF this] show ?thesis by (simp add: registry_of_def)
next
  case (step_mpool_exit cpus)
  from registry_mpool_exit [OF this] show ?thesis by (simp add: registry_of_def)
next
  case (step_mpool_init cpus e)
  then have "init_cpus cpus cpus s = Inr (e, s')"
    by (simp add: ttls_mpool_init_def)
  from registry_init_cpus [OF this] show ?thesis by (simp add: registry_of_def)
qed

lemma flag_stays_while_others_empty:
  assumes "mpool_step s s'" "has_empty_profile s" "\<forall>j. 0 < j \<longrightarrow> mpi_profiles s j = 0"
  shows "has_empty_profile s' \<and> (\<forall>j. 0 < j \<longrightarrow> mpi_profiles s' j = 0)"
proof -
  have others: "mpi_profiles s' j = 0" if "0 < j" for j
    using step_other_slots [OF assms(1) that] assms(3) that by simp
  have one: "mpi_profiles s' 1 = 0"
    by (rule others) simp
  have "has_empty_profile s'"
  proof (rule ccontr)
    assume "\<not> has_empty_profile s'"
    with flag_step [OF assms(1)] assms(2)
    have "\<forall>i<TTLS_MPI_PROFILES_N. mpi_profiles s' i \<noteq> 0"
      by simp
    then have "mpi_profiles s' 1 \<noteq> 0"
      by (simp add: TTLS_MPI_PROFILES_N_def)
    with one show False by simp
  qed
  then show ?thesis
    using others by simp
qed


section \<open>Creating profiles\<close>




section \<open>Binding a handshake\<close>

text \<open>
  C8, as the spec states it: bind fails with a configuration error when no profile
  exists, and profile creation fails for a scheme whose preparation is not implemented.
  On the code both return 0: \<^verbatim>\<open>ttls_mpi_profile_alloc\<close> on a context without profile, with
  an empty registry, and \<^verbatim>\<open>ttls_mpi_profile_set\<close> for an RSA key.
\<close>

theorem bind_always_succeeds_counterexample:
  "ttls_mpi_profile_alloc (\<lambda>_. True) (\<lambda>_. False)
       \<lparr>hs = 0, peer_conf_mpi_prof = 0, xfrm_ciphersuite_info = 0\<rparr> (boot_state (\<lambda>_. 0) [])
     = (0, boot_state (\<lambda>_. 0) [])
   \<and> mpi_profiles (boot_state (\<lambda>_. 0) []) TTLS_MPI_PROFILE_ECDH = 0
   \<and> fst (ttls_mpi_profile_set demo_ops 0 rsa_crt (boot_state (\<lambda>_. 0) [8192])) = 0"
  by (simp add: ttls_mpi_profile_alloc_def profile_set_other_key rsa_crt_def boot_state_def)

text \<open>
  C8, amended: \<^verbatim>\<open>ttls_mpi_profile_alloc\<close> returns 0 and leaves the state unchanged for
  every TLS context, whether a profile exists or not; and for every key that is not a
  plain elliptic-curve key (RSA, Diffie-Hellman and the others) \<^verbatim>\<open>ttls_mpi_profile_set\<close>
  returns 0, registers no profile, writes no memory and allocates no page, so that no
  partly initialised profile is ever registered for such a key.
\<close>

theorem bind_and_other_keys:
  "ttls_mpi_profile_alloc uses_ecdh uses_ecdhe tls s = (0, s)
   \<and> (pk_info_type (pk crt) \<noteq> TTLS_PK_ECKEY \<longrightarrow>
        fst (ttls_mpi_profile_set ops mp0 crt s) = 0
        \<and> mpi_profiles (snd (ttls_mpi_profile_set ops mp0 crt s)) = mpi_profiles s
        \<and> mem (snd (ttls_mpi_profile_set ops mp0 crt s)) = mem s
        \<and> buddy (snd (ttls_mpi_profile_set ops mp0 crt s)) = buddy s)"
  by (simp add: ttls_mpi_profile_alloc_def profile_set_other_key)

theorem bind_and_other_keys_witness:
  "ttls_mpi_profile_alloc (\<lambda>_. True) (\<lambda>_. False)
       \<lparr>hs = 0, peer_conf_mpi_prof = 0, xfrm_ciphersuite_info = 0\<rparr> (boot_state (\<lambda>_. 0) [8192])
     = (0, boot_state (\<lambda>_. 0) [8192])
   \<and> fst (ttls_mpi_profile_set demo_ops 0 rsa_crt (boot_state (\<lambda>_. 0) [8192])) = 0
   \<and> mpi_profiles (snd (ttls_mpi_profile_set demo_ops 0 rsa_crt (boot_state (\<lambda>_. 0) [8192]))) 0 = 0
   \<and> buddy (snd (ttls_mpi_profile_set demo_ops 0 rsa_crt (boot_state (\<lambda>_. 0) [8192]))) = [8192]"
  using bind_and_other_keys [of "\<lambda>_. True" "\<lambda>_. False"
      "\<lparr>hs = 0, peer_conf_mpi_prof = 0, xfrm_ciphersuite_info = 0\<rparr>" "boot_state (\<lambda>_. 0) [8192]"
      rsa_crt demo_ops 0]
  by (simp add: rsa_crt_def boot_state_def)

end
